theory Spec2Isabelle
  imports Complex_Main "HOL-Library.Multiset"
begin

section \<open>Python values\<close>

text \<open>
  A Python \<open>str\<close> is a sequence of Unicode code points, and \<open>len\<close> counts code
  points, so a string is modelled as a list of code-point numbers. ASCII literals of the
  source are written through \<open>ustr\<close>; the Chinese literals are written as their code
  points.
\<close>

type_synonym ustring = "nat list"

definition ustr :: "string \<Rightarrow> ustring" where
  "ustr s = map of_char s"

text \<open>
  \<open>str.isspace\<close>, \<open>str.strip\<close> and the regular-expression class \<open>\s\<close> share one
  table of whitespace code points in CPython.
\<close>

definition py_space_char :: "nat \<Rightarrow> bool" where
  "py_space_char c \<longleftrightarrow>
     (9 \<le> c \<and> c \<le> 13) \<or> (28 \<le> c \<and> c \<le> 32) \<or> c = 133 \<or> c = 160 \<or> c = 5760
     \<or> (8192 \<le> c \<and> c \<le> 8202) \<or> c = 8232 \<or> c = 8233 \<or> c = 8239 \<or> c = 8287
     \<or> c = 12288"

text \<open>\<open>text.isspace()\<close>: non-empty and whitespace only.\<close>

definition py_isspace :: "ustring \<Rightarrow> bool" where
  "py_isspace s \<longleftrightarrow> s \<noteq> [] \<and> list_all py_space_char s"

definition py_strip :: "ustring \<Rightarrow> ustring" where
  "py_strip s = rev (dropWhile py_space_char (rev (dropWhile py_space_char s)))"

datatype py_error = AttributeError | KeyError | IndexError | TypeError | DatabaseError

section \<open>Embedding client: \<open>get_batch_embeddings\<close>\<close>

text \<open>
  What one \<open>requests.post\<close> attempt can lead to inside the \<open>try\<close> block:
  \<open>raise_for_status\<close> raises an \<open>HTTPError\<close> carrying the status code; any other
  exception (time-out, connection error, a body that is not JSON, an item without
  \<open>index\<close> or \<open>embedding\<close>) reaches the generic handler; the JSON has no \<open>data\<close>
  key; or the JSON has a \<open>data\<close> list of items, each an index and an embedding.
\<close>

datatype 'v outcome =
    HTTPError nat
  | OtherException
  | NoData
  | Data "(int \<times> 'v list) list"

text \<open>The remote service: the request's input texts and the attempt number give the outcome.\<close>

type_synonym 'v service = "ustring list \<Rightarrow> nat \<Rightarrow> 'v outcome"

definition max_retries :: nat where
  "max_retries = 3"

definition retry_delay :: nat where
  "retry_delay = 2"

definition embedding_api_batch_size :: nat where
  "embedding_api_batch_size = 10"

definition db_batch_size :: nat where
  "db_batch_size = 100"

text \<open>\<open>text and not text.isspace()\<close>\<close>

definition nonblank :: "ustring \<Rightarrow> bool" where
  "nonblank t \<longleftrightarrow> t \<noteq> [] \<and> \<not> py_isspace t"

definition valid_texts :: "ustring list \<Rightarrow> ustring list" where
  "valid_texts texts = filter nonblank texts"

definition valid_indices :: "ustring list \<Rightarrow> nat list" where
  "valid_indices texts = filter (\<lambda>i. nonblank (texts ! i)) [0..<length texts]"

text \<open>
  The retry loop \<open>for attempt in range(self.max_retries)\<close>, run over the remaining
  attempt numbers. It returns \<open>api_results\<close>, the number of requests sent and the
  delays slept, in order. A \<open>data\<close> response and status 400 leave the loop by
  \<open>break\<close>; everything else falls through to the sleep and the next attempt.
\<close>

record 'v loop_result =
  api_results :: "'v list list option"
  calls :: nat
  sleeps :: "nat list"

fun retry_loop :: "(nat \<Rightarrow> 'v outcome) \<Rightarrow> nat list \<Rightarrow> 'v loop_result" where
  "retry_loop post [] = \<lparr>api_results = None, calls = 0, sleeps = []\<rparr>"
| "retry_loop post (attempt # rest) =
     (let continue =
        (let r = retry_loop post rest
         in r\<lparr>calls := Suc (calls r),
              sleeps := (if attempt < max_retries - 1
                         then [retry_delay * (attempt + 1)] else []) @ sleeps r\<rparr>)
      in case post attempt of
           Data items \<Rightarrow>
             \<lparr>api_results = Some (map snd (sort_key fst items)), calls = 1, sleeps = []\<rparr>
         | HTTPError status_code \<Rightarrow>
             if status_code = 400
             then \<lparr>api_results = None, calls = 1, sleeps = []\<rparr>
             else continue
         | OtherException \<Rightarrow> continue
         | NoData \<Rightarrow> continue)"

text \<open>
  The loop that puts the embeddings back at the original positions:
  \<open>results[valid_indices[i]] = embedding\<close>; \<open>valid_indices[i]\<close> raises
  \<open>IndexError\<close> when the service sent more embeddings than texts.
\<close>

fun rehydrate :: "nat list \<Rightarrow> nat \<Rightarrow> 'v list list \<Rightarrow> 'v list option list
    \<Rightarrow> py_error + 'v list option list" where
  "rehydrate vi i [] results = Inr results"
| "rehydrate vi i (embedding # rest) results =
     (if i < length vi
      then rehydrate vi (Suc i) rest (results[vi ! i := Some embedding])
      else Inl IndexError)"

record 'v fetch_result =
  embeddings :: "'v list option list"
  requests :: nat
  slept :: "nat list"

definition get_batch_embeddings :: "'v service \<Rightarrow> ustring list
    \<Rightarrow> py_error + 'v fetch_result" where
  "get_batch_embeddings svc texts =
     (if texts = [] then Inr \<lparr>embeddings = [], requests = 0, slept = []\<rparr>
      else if valid_texts texts = []
      then Inr \<lparr>embeddings = replicate (length texts) None, requests = 0, slept = []\<rparr>
      else
        let r = retry_loop (svc (valid_texts texts)) [0..<max_retries];
            results = replicate (length texts) None
        in case (case api_results r of
                   None \<Rightarrow> Inr results
                 | Some embs \<Rightarrow>
                     if embs \<noteq> [] then rehydrate (valid_indices texts) 0 embs results
                     else Inr results) of
             Inl e \<Rightarrow> Inl e
           | Inr res \<Rightarrow> Inr \<lparr>embeddings = res, requests = calls r, slept = sleeps r\<rparr>)"

text \<open>A service that answers every request with one HTTP status.\<close>

definition always_status :: "nat \<Rightarrow> 'v service" where
  "always_status code = (\<lambda>texts attempt. HTTPError code)"

text \<open>
  The outcomes after which the loop goes on to the next attempt: every outcome but a
  \<open>data\<close> response and status 400, the two \<open>break\<close> statements.
\<close>

definition retried :: "'v outcome \<Rightarrow> bool" where
  "retried out = (case out of Data items \<Rightarrow> False | HTTPError c \<Rightarrow> c \<noteq> 400 | _ \<Rightarrow> True)"

text \<open>
  The \<open>data\<close> items of the response on which the loop stops, if it stops on one.
\<close>

fun answer :: "(nat \<Rightarrow> 'v outcome) \<Rightarrow> nat list \<Rightarrow> (int \<times> 'v list) list option" where
  "answer post [] = None"
| "answer post (attempt # rest) =
     (case post attempt of
        Data items \<Rightarrow> Some items
      | HTTPError status_code \<Rightarrow> if status_code = 400 then None else answer post rest
      | OtherException \<Rightarrow> answer post rest
      | NoData \<Rightarrow> answer post rest)"

text \<open>
  A service that keeps to its interface: a \<open>data\<close> response carries one item for
  each input text, and the items' indices are the positions \<open>0, ..., k - 1\<close> of the
  \<open>k\<close> texts sent, in any order.
\<close>

definition conforming :: "'v service \<Rightarrow> ustring list \<Rightarrow> bool" where
  "conforming svc texts =
     list_all (\<lambda>attempt. case svc (valid_texts texts) attempt of
                  Data items \<Rightarrow> sort (map fst items) = map int [0..<length (valid_texts texts)]
                | _ \<Rightarrow> True) [0..<max_retries]"

text \<open>
  A sample service: the first attempt times out, every later one answers with the items
  in reverse order, the embedding of a text being its length.
\<close>

definition echo_service :: "real service" where
  "echo_service = (\<lambda>texts attempt.
     if attempt = 0 then OtherException
     else Data (rev (map (\<lambda>i. (int i, [real (length (texts ! i))])) [0..<length texts])))"

section \<open>Concurrent embedding of one poem batch\<close>

text \<open>
  \<open>[all_sentences[i:i + n] for i in range(0, len(all_sentences), n)]\<close>, for the
  positive batch size \<open>n\<close> of the configuration.
\<close>

function chunks :: "nat \<Rightarrow> 'a list \<Rightarrow> 'a list list" where
  "chunks n xs = (if n = 0 \<or> xs = [] then [] else take n xs # chunks n (drop n xs))"
  by pat_completeness auto
termination
  by (relation "measure (\<lambda>(n, xs). length xs)") auto

text \<open>
  The loop over \<open>as_completed(future_to_index)\<close>. The futures complete in some order,
  given as the list of their submission indices; each result is stored at its submission
  index, \<open>results_in_order[index] = future.result()\<close>, and a future whose call raised
  raises again at \<open>future.result()\<close>.
\<close>

fun collect :: "nat list \<Rightarrow> (py_error + 'r) list \<Rightarrow> 'r option list
    \<Rightarrow> py_error + 'r option list" where
  "collect [] futures results_in_order = Inr results_in_order"
| "collect (index # rest) futures results_in_order =
     (case futures ! index of
        Inl e \<Rightarrow> Inl e
      | Inr result \<Rightarrow> collect rest futures (results_in_order[index := Some result]))"

text \<open>
  \<open>for result_batch in results_in_order: if result_batch: all_embeddings.extend(result_batch)\<close>
\<close>

definition extend_all :: "'e list option list \<Rightarrow> 'e list" where
  "extend_all results_in_order =
     concat (map (\<lambda>result_batch. case result_batch of
                     None \<Rightarrow> []
                   | Some b \<Rightarrow> if b \<noteq> [] then b else []) results_in_order)"

text \<open>The sub-batches of a poem batch's sentences and the outcome of each worker.\<close>

definition sub_batches :: "ustring list \<Rightarrow> ustring list list" where
  "sub_batches all_sentences = chunks embedding_api_batch_size all_sentences"

definition futures_of :: "'v service \<Rightarrow> ustring list \<Rightarrow> (py_error + 'v list option list) list" where
  "futures_of svc all_sentences =
     map (\<lambda>batch. case get_batch_embeddings svc batch of
                     Inl e \<Rightarrow> Inl e
                   | Inr r \<Rightarrow> Inr (embeddings r)) (sub_batches all_sentences)"

text \<open>
  The body of \<open>with ThreadPoolExecutor(...)\<close>: submit every sub-batch, collect in
  completion order \<open>order\<close>, merge.
\<close>

definition gather_embeddings :: "'v service \<Rightarrow> nat list \<Rightarrow> ustring list
    \<Rightarrow> py_error + 'v list option list" where
  "gather_embeddings svc order all_sentences =
     (let futures = futures_of svc all_sentences
      in case collect order futures (replicate (length futures) None) of
           Inl e \<Rightarrow> Inl e
         | Inr results_in_order \<Rightarrow> Inr (extend_all results_in_order))"

text \<open>A service that embeds every text as its length, at the first attempt.\<close>

definition length_service :: "real service" where
  "length_service =
     (\<lambda>texts attempt. Data (map (\<lambda>i. (int i, [real (length (texts ! i))])) [0..<length texts]))"

text \<open>Twelve sentences, which make two sub-batches.\<close>

definition twelve_sentences :: "ustring list" where
  "twelve_sentences = map (\<lambda>i. replicate (Suc i) 97) [0..<12]"

text \<open>Every worker returned, none raised.\<close>

definition all_done :: "(py_error + 'r) list \<Rightarrow> bool" where
  "all_done futures = list_all (\<lambda>f. \<not> isl f) futures"

section \<open>Parsed documents\<close>

text \<open>
  What \<open>json.load\<close> returns: \<open>None\<close>, a \<open>bool\<close>, an \<open>int\<close>, a \<open>float\<close>, a
  \<open>str\<close>, a \<open>list\<close> or a \<open>dict\<close> with string keys. A \<open>dict\<close> is its list of
  items in insertion order; a key is looked up with \<open>map_of\<close>. The poem records that the
  adapter builds are dictionaries of the same kind.
\<close>

datatype json =
    JNull
  | JBool bool
  | JInt int
  | JFloat real
  | JStr ustring
  | JArr "json list"
  | JObj "(ustring \<times> json) list"

text \<open>Truth value of a Python object, as \<open>if x\<close>, \<open>not x\<close>, \<open>x or y\<close> test it.\<close>

fun truthy :: "json \<Rightarrow> bool" where
  "truthy JNull = False"
| "truthy (JBool b) = b"
| "truthy (JInt i) = (i \<noteq> 0)"
| "truthy (JFloat x) = (x \<noteq> 0)"
| "truthy (JStr s) = (s \<noteq> [])"
| "truthy (JArr xs) = (xs \<noteq> [])"
| "truthy (JObj kvs) = (kvs \<noteq> [])"

fun is_dict :: "json \<Rightarrow> bool" where
  "is_dict (JObj kvs) = True"
| "is_dict _ = False"

fun is_list :: "json \<Rightarrow> bool" where
  "is_list (JArr xs) = True"
| "is_list _ = False"

fun is_str :: "json \<Rightarrow> bool" where
  "is_str (JStr s) = True"
| "is_str _ = False"

text \<open>\<open>x or y\<close>\<close>

definition py_or :: "json \<Rightarrow> json \<Rightarrow> json" where
  "py_or x y = (if truthy x then x else y)"

text \<open>Sequencing of operations that may raise: the first exception ends the computation.\<close>

definition sbind :: "py_error + 'a \<Rightarrow> ('a \<Rightarrow> py_error + 'b) \<Rightarrow> py_error + 'b" where
  "sbind m f = (case m of Inl e \<Rightarrow> Inl e | Inr x \<Rightarrow> f x)"

text \<open>The computation ends with a value, not with an exception.\<close>

definition returns :: "py_error + 'a \<Rightarrow> bool" where
  "returns m = (case m of Inl e \<Rightarrow> False | Inr x \<Rightarrow> True)"

text \<open>\<open>if c: ... else: ...\<close> where evaluating the condition may raise.\<close>

definition sif :: "py_error + bool \<Rightarrow> py_error + 'a \<Rightarrow> py_error + 'a \<Rightarrow> py_error + 'a" where
  "sif c t e = sbind c (\<lambda>b. if b then t else e)"

text \<open>A loop that appends to a list the items each iteration yields.\<close>

fun sconcat_map :: "('a \<Rightarrow> py_error + 'b list) \<Rightarrow> 'a list \<Rightarrow> py_error + 'b list" where
  "sconcat_map f [] = Inr []"
| "sconcat_map f (x # xs) =
     sbind (f x) (\<lambda>ys. sbind (sconcat_map f xs) (\<lambda>zs. Inr (ys @ zs)))"

text \<open>\<open>sub in s\<close> for two strings.\<close>

fun starts_with :: "'a list \<Rightarrow> 'a list \<Rightarrow> bool" where
  "starts_with s [] = True"
| "starts_with [] (c # sub) = False"
| "starts_with (d # s) (c # sub) = (d = c \<and> starts_with s sub)"

fun py_substr :: "'a list \<Rightarrow> 'a list \<Rightarrow> bool" where
  "py_substr sub [] = (sub = [])"
| "py_substr sub (c # s) = (starts_with (c # s) sub \<or> py_substr sub s)"

text \<open>
  \<open>key in x\<close> for a string \<open>key\<close>: a key of a \<open>dict\<close>, an element of a \<open>list\<close>, a
  substring of a \<open>str\<close>; \<open>TypeError\<close> on a value that is not a container.
\<close>

fun py_contains :: "ustring \<Rightarrow> json \<Rightarrow> py_error + bool" where
  "py_contains key (JObj kvs) = Inr (key \<in> set (map fst kvs))"
| "py_contains key (JArr xs) = Inr (JStr key \<in> set xs)"
| "py_contains key (JStr s) = Inr (py_substr key s)"
| "py_contains key _ = Inl TypeError"

text \<open>\<open>x.get(key, default)\<close>: only a \<open>dict\<close> has the method.\<close>

fun py_get :: "json \<Rightarrow> ustring \<Rightarrow> json \<Rightarrow> py_error + json" where
  "py_get (JObj kvs) key dflt = Inr (case map_of kvs key of None \<Rightarrow> dflt | Some v \<Rightarrow> v)"
| "py_get _ key dflt = Inl AttributeError"

text \<open>\<open>x[key]\<close> for a string \<open>key\<close>.\<close>

fun py_getitem :: "json \<Rightarrow> ustring \<Rightarrow> py_error + json" where
  "py_getitem (JObj kvs) key = (case map_of kvs key of None \<Rightarrow> Inl KeyError | Some v \<Rightarrow> Inr v)"
| "py_getitem _ key = Inl TypeError"

text \<open>\<open>x[0]\<close>\<close>

fun py_first :: "json \<Rightarrow> py_error + json" where
  "py_first (JArr []) = Inl IndexError"
| "py_first (JArr (x # xs)) = Inr x"
| "py_first (JStr []) = Inl IndexError"
| "py_first (JStr (c # s)) = Inr (JStr [c])"
| "py_first (JObj kvs) = Inl KeyError"
| "py_first _ = Inl TypeError"

text \<open>\<open>for item in x\<close>: the items a loop over \<open>x\<close> visits.\<close>

fun py_iter :: "json \<Rightarrow> py_error + json list" where
  "py_iter (JArr xs) = Inr xs"
| "py_iter (JObj kvs) = Inr (map (\<lambda>kv. JStr (fst kv)) kvs)"
| "py_iter (JStr s) = Inr (map (\<lambda>c. JStr [c]) s)"
| "py_iter _ = Inl TypeError"

text \<open>
  The parts of the run-time library and of OpenCC that the importer calls and whose tables
  are not part of the repository: the converter \<open>opencc.OpenCC('t2s').convert\<close>,
  \<open>str\<close> applied to a value that is not a string, \<open>str.lower\<close>, and the class \<open>\d\<close>
  of the regular expressions.
\<close>

record env =
  convert :: "ustring \<Rightarrow> ustring"
  py_repr :: "json \<Rightarrow> ustring"
  lower :: "ustring \<Rightarrow> ustring"
  is_digit :: "nat \<Rightarrow> bool"

text \<open>\<open>str(x)\<close>\<close>

definition py_str :: "env \<Rightarrow> json \<Rightarrow> ustring" where
  "py_str E x = (case x of JStr s \<Rightarrow> s | _ \<Rightarrow> py_repr E x)"

subsection \<open>String literals of the importer\<close>

definition wu_ti :: ustring where "wu_ti = [26080, 39064]"
definition yi_ming :: ustring where "yi_ming = [20314, 21517]"
definition kong_zi :: ustring where "kong_zi = [23380, 23376]"
definition xian_qin :: ustring where "xian_qin = [20808, 31206]"
definition wei_zhi :: ustring where "wei_zhi = [26410, 30693]"
definition wei_zhi_pian_zhang :: ustring where "wei_zhi_pian_zhang = [26410, 30693, 31687, 31456]"
definition jing_dian_pian_zhang :: ustring where "jing_dian_pian_zhang = [32463, 20856, 31687, 31456]"
definition lun_yu :: ustring where "lun_yu = [35770, 35821]"
definition da_xue :: ustring where "da_xue = [22823, 23398]"
definition zhong_yong :: ustring where "zhong_yong = [20013, 24248]"
definition meng_zi :: ustring where "meng_zi = [23391, 23376]"
definition shi_jing :: ustring where "shi_jing = [35799, 32463]"
definition chu_ci :: ustring where "chu_ci = [26970, 36766]"
definition si_shu_wu_jing :: ustring where "si_shu_wu_jing = [22235, 20070, 20116, 32463]"
definition meng_xue :: ustring where "meng_xue = [33945, 23398]"
definition gu_dai :: ustring where "gu_dai = [21476, 20195]"
definition cao_cao :: ustring where "cao_cao = [26361, 25805]"
definition nalan_xingde :: ustring where "nalan_xingde = [32435, 20848, 24615, 24503]"
definition tang_dai :: ustring where "tang_dai = [21776, 20195]"
definition song_dai :: ustring where "song_dai = [23435, 20195]"
definition yuan_dai :: ustring where "yuan_dai = [20803, 20195]"
definition ming_dai :: ustring where "ming_dai = [26126, 20195]"
definition qing_dai :: ustring where "qing_dai = [28165, 20195]"
definition wu_dai_shi_guo :: ustring where "wu_dai_shi_guo = [20116, 20195, 21313, 22269]"
definition liang_jin :: ustring where "liang_jin = [20004, 26187]"
definition nan_bei_chao :: ustring where "nan_bei_chao = [21335, 21271, 26397]"
definition sui_dai :: ustring where "sui_dai = [38539, 20195]"
definition liang_han :: ustring where "liang_han = [20004, 27721]"

section \<open>Document schema adapter: \<open>_extract_poems_from_data\<close>\<close>

text \<open>
  The adapter is written with the operations that can raise (\<open>get\<close>, subscripts,
  \<open>in\<close>, iteration), so that an exception of the source is a value \<open>Inl\<close> of the
  model.
\<close>

text \<open>The dictionary literal \<open>{'title': t, 'author': a, 'dynasty': d, 'paragraphs': p}\<close>.\<close>

definition poem_dict :: "json \<Rightarrow> json \<Rightarrow> json \<Rightarrow> json \<Rightarrow> json" where
  "poem_dict t a d p =
     JObj [(ustr ''title'', t), (ustr ''author'', a), (ustr ''dynasty'', d),
           (ustr ''paragraphs'', p)]"

text \<open>The same literal, its four values evaluated in order.\<close>

definition build_poem :: "py_error + json \<Rightarrow> py_error + json \<Rightarrow> py_error + json
    \<Rightarrow> py_error + json \<Rightarrow> py_error + json" where
  "build_poem t a d p =
     sbind t (\<lambda>t'. sbind a (\<lambda>a'. sbind d (\<lambda>d'. sbind p (\<lambda>p'.
       Inr (poem_dict t' a' d' p')))))"

text \<open>\<open>key in x and isinstance(x[key], list)\<close>\<close>

definition has_list :: "json \<Rightarrow> ustring \<Rightarrow> py_error + bool" where
  "has_list x key =
     sbind (py_contains key x) (\<lambda>c.
       if c then sbind (py_getitem x key) (\<lambda>v. Inr (is_list v)) else Inr False)"

text \<open>\<open>for item in x[key]: ...\<close>, each iteration appending what \<open>body\<close> yields.\<close>

definition for_each_in :: "json \<Rightarrow> ustring \<Rightarrow> (json \<Rightarrow> py_error + json list)
    \<Rightarrow> py_error + json list" where
  "for_each_in x key body =
     sbind (py_getitem x key) (\<lambda>v. sbind (py_iter v) (sconcat_map body))"

text \<open>\<open>x.get(k1, x.get(k2, dflt))\<close>: the default is evaluated first.\<close>

definition get2 :: "json \<Rightarrow> ustring \<Rightarrow> json \<Rightarrow> ustring \<Rightarrow> json \<Rightarrow> py_error + json" where
  "get2 x k1 y k2 dflt = sbind (py_get y k2 dflt) (\<lambda>d. py_get x k1 d)"

definition infer_dynasty_from_content :: "env \<Rightarrow> json \<Rightarrow> py_error + json" where
  "infer_dynasty_from_content E poem_data =
     sbind (py_get poem_data (ustr ''dynasty'') JNull) (\<lambda>dynasty.
       if truthy dynasty then Inr (JStr (py_str E dynasty)) else Inr (JStr wei_zhi))"

text \<open>Body of the loop over \<open>data['content']\<close>.\<close>

definition content_item :: "env \<Rightarrow> json \<Rightarrow> json \<Rightarrow> py_error + json list" where
  "content_item E fallback_author item =
     (if is_dict item then
        sif (has_list item (ustr ''content''))
          (sbind
             (build_poem
                (py_get item (ustr ''title'') (JStr wu_ti))
                (py_get item (ustr ''author'') (py_or fallback_author (JStr yi_ming)))
                (sbind (infer_dynasty_from_content E item) (py_get item (ustr ''dynasty'')))
                (py_getitem item (ustr ''content'')))
             (\<lambda>poem. Inr [poem]))
          (Inr [item])
      else Inr [])"

text \<open>Body of the loop over \<open>data['paragraphs']\<close> when the document has a \<open>chapter\<close>.\<close>

definition chapter_paragraph :: "json \<Rightarrow> json \<Rightarrow> json \<Rightarrow> py_error + json list" where
  "chapter_paragraph data fallback_author paragraph =
     sbind
       (build_poem
          (py_getitem data (ustr ''chapter''))
          (Inr (py_or fallback_author (JStr kong_zi)))
          (Inr (JStr xian_qin))
          (Inr (JArr [paragraph])))
       (\<lambda>poem. Inr [poem])"

text \<open>Body of the loop over \<open>data['chapters']\<close>, with its inner loop over the paragraphs.\<close>

definition chapters_para :: "json \<Rightarrow> json \<Rightarrow> json \<Rightarrow> json \<Rightarrow> py_error + json list" where
  "chapters_para data fallback_author chapter para =
     sbind
       (build_poem
          (sbind (py_get chapter (ustr ''title'') JNull) (\<lambda>t.
             if truthy t then Inr t
             else py_get chapter (ustr ''chapter'') (JStr wei_zhi_pian_zhang)))
          (py_get chapter (ustr ''author'') fallback_author)
          (get2 chapter (ustr ''dynasty'') data (ustr ''dynasty'') JNull)
          (Inr (if is_str para then JArr [para] else para)))
       (\<lambda>poem. Inr [poem])"

definition chapters_item :: "json \<Rightarrow> json \<Rightarrow> json \<Rightarrow> py_error + json list" where
  "chapters_item data fallback_author chapter =
     (if is_dict chapter then
        sif (has_list chapter (ustr ''paragraphs''))
          (for_each_in chapter (ustr ''paragraphs'') (chapters_para data fallback_author chapter))
          (sbind
             (build_poem
                (py_get chapter (ustr ''title'') (JStr wei_zhi_pian_zhang))
                (py_get chapter (ustr ''author'') fallback_author)
                (get2 chapter (ustr ''dynasty'') data (ustr ''dynasty'') JNull)
                (py_get chapter (ustr ''paragraphs'') (JArr [])))
             (\<lambda>poem. Inr [poem]))
      else Inr [])"

text \<open>Body of the loop over \<open>data['sections']\<close>.\<close>

definition sections_item :: "json \<Rightarrow> json \<Rightarrow> json \<Rightarrow> py_error + json list" where
  "sections_item data fallback_author section =
     (if is_dict section then
        sbind
          (build_poem
             (get2 section (ustr ''title'') data (ustr ''title'') (JStr wu_ti))
             (py_get section (ustr ''author'') fallback_author)
             (get2 section (ustr ''dynasty'') data (ustr ''dynasty'') JNull)
             (get2 section (ustr ''paragraphs'') section (ustr ''content'') (JArr [])))
          (\<lambda>poem. Inr [poem])
      else Inr [])"

text \<open>Body of the loop over \<open>data['text']\<close>.\<close>

definition text_item :: "json \<Rightarrow> json \<Rightarrow> json \<Rightarrow> py_error + json list" where
  "text_item data fallback_author item =
     (if is_dict item then
        sbind
          (build_poem
             (get2 item (ustr ''title'') data (ustr ''title'') (JStr wu_ti))
             (py_get item (ustr ''author'') fallback_author)
             (get2 item (ustr ''dynasty'') data (ustr ''dynasty'') (JStr wei_zhi))
             (get2 item (ustr ''paragraphs'') item (ustr ''content'') (JArr [])))
          (\<lambda>poem. Inr [poem])
      else Inr [])"

text \<open>
  \<open>'title' in data and ('paragraphs' in data or 'content' in data)\<close>, with the
  short-circuit evaluation of \<open>and\<close> and \<open>or\<close>.
\<close>

definition single_poem_shape :: "json \<Rightarrow> py_error + bool" where
  "single_poem_shape data =
     sbind (py_contains (ustr ''title'') data) (\<lambda>t.
       if t then
         sbind (py_contains (ustr ''paragraphs'') data) (\<lambda>p.
           if p then Inr True else py_contains (ustr ''content'') data)
       else Inr False)"

text \<open>The \<open>if\<close>/\<open>elif\<close> chain of the \<open>dict\<close> case.\<close>

definition recognised_shapes :: "env \<Rightarrow> json \<Rightarrow> json \<Rightarrow> py_error + json list" where
  "recognised_shapes E data fallback_author =
     sif (has_list data (ustr ''content''))
       (for_each_in data (ustr ''content'') (content_item E fallback_author))
    (sif (has_list data (ustr ''paragraphs''))
       (sif (py_contains (ustr ''chapter'') data)
          (for_each_in data (ustr ''paragraphs'') (chapter_paragraph data fallback_author))
          (Inr [data]))
    (sif (has_list data (ustr ''chapters''))
       (for_each_in data (ustr ''chapters'') (chapters_item data fallback_author))
    (sif (has_list data (ustr ''sections''))
       (for_each_in data (ustr ''sections'') (sections_item data fallback_author))
    (sif (single_poem_shape data)
       (Inr [data])
    (sif (has_list data (ustr ''text''))
       (for_each_in data (ustr ''text'') (text_item data fallback_author))
       (Inr []))))))"

text \<open>
  The loop over \<open>possible_fields\<close>: the first field that holds a list decides, then
  \<open>break\<close>.
\<close>

definition possible_fields :: "ustring list" where
  "possible_fields =
     [ustr ''content'', ustr ''paragraphs'', ustr ''text'', ustr ''verses'', ustr ''lines'']"

fun probe_fields :: "json \<Rightarrow> json \<Rightarrow> ustring list \<Rightarrow> py_error + json list" where
  "probe_fields data fallback_author [] = Inr []"
| "probe_fields data fallback_author (field # rest) =
     sif (has_list data field)
       (sbind (py_getitem data field) (\<lambda>content_list.
          sif (if truthy content_list
               then sbind (py_first content_list) (\<lambda>x. Inr (is_str x))
               else Inr False)
            (sbind
               (build_poem
                  (py_get data (ustr ''title'') (JStr wu_ti))
                  (py_get data (ustr ''author'') fallback_author)
                  (py_get data (ustr ''dynasty'') (JStr wei_zhi))
                  (Inr content_list))
               (\<lambda>poem. Inr [poem]))
            (Inr [])))
       (probe_fields data fallback_author rest)"

text \<open>\<open>any(keyword in str(data).lower() for keyword in keywords)\<close>\<close>

definition mentions :: "env \<Rightarrow> json \<Rightarrow> ustring list \<Rightarrow> bool" where
  "mentions E data keywords =
     list_ex (\<lambda>keyword. py_substr keyword (lower E (py_str E data))) keywords"

text \<open>The last resort: sniffing the document's text for the names of classical works.\<close>

definition sniff_classics :: "env \<Rightarrow> json \<Rightarrow> py_error + json list" where
  "sniff_classics E data =
     (if mentions E data [lun_yu, da_xue, zhong_yong, meng_zi] then
        sif (has_list data (ustr ''paragraphs''))
          (sbind
             (build_poem
                (get2 data (ustr ''chapter'') data (ustr ''title'') (JStr jing_dian_pian_zhang))
                (Inr (JStr kong_zi))
                (Inr (JStr xian_qin))
                (py_getitem data (ustr ''paragraphs'')))
             (\<lambda>poem. Inr [poem]))
          (Inr [])
      else if mentions E data [shi_jing, chu_ci] then
        sif (if is_dict data then py_contains (ustr ''title'') data else Inr False)
          (sbind
             (build_poem
                (py_getitem data (ustr ''title''))
                (py_get data (ustr ''author'') (JStr yi_ming))
                (py_get data (ustr ''dynasty'') (JStr xian_qin))
                (get2 data (ustr ''paragraphs'') data (ustr ''content'') (JArr [])))
             (\<lambda>poem. Inr [poem]))
          (Inr [])
      else Inr [])"

text \<open>
  The whole function. It returns the poem records and the file-level fallback author
  (\<open>JNull\<close> is \<open>None\<close>).
\<close>

definition extract_poems_from_data :: "env \<Rightarrow> json \<Rightarrow> py_error + (json list \<times> json)" where
  "extract_poems_from_data E data =
     (if is_list data then
        sbind (py_iter data) (\<lambda>items. Inr (filter is_dict items, JNull))
      else
        sbind (if is_dict data then py_get data (ustr ''author'') JNull else Inr JNull)
          (\<lambda>fallback_author.
        sbind (if is_dict data then recognised_shapes E data fallback_author else Inr [])
          (\<lambda>poems1.
        sbind (if poems1 = [] \<and> is_dict data
               then probe_fields data fallback_author possible_fields else Inr poems1)
          (\<lambda>poems2.
        sbind (if poems2 = [] \<and> is_dict data then sniff_classics E data else Inr poems2)
          (\<lambda>poems3. Inr (poems3, fallback_author))))))"

section \<open>Normalising one poem record: \<open>process_poem_data\<close>\<close>

text \<open>
  The dictionary \<open>{'title': ..., 'author': ..., 'dynasty': ..., 'content': ...}\<close> that
  \<open>process_poem_data\<close> returns.
\<close>

record poem =
  p_title :: ustring
  p_author :: ustring
  p_dynasty :: ustring
  p_content :: ustring

text \<open>\<open>path_author_map\<close> and \<open>path_keyword_map\<close>, in the order of the dictionary literals.\<close>

definition path_author_map :: "(ustring \<times> ustring) list" where
  "path_author_map =
     [(ustr ''caocao'', cao_cao), (ustr ''nalanxingde'', nalan_xingde),
      (ustr ''shijing'', yi_ming), (ustr ''sishuwujing/lunyu'', kong_zi)]"

definition path_keyword_map :: "(ustring \<times> ustring) list" where
  "path_keyword_map =
     [(ustr ''tang'', tang_dai), (ustr ''quan_tang_shi'', tang_dai), (ustr ''song'', song_dai),
      (ustr ''yuan'', yuan_dai), (ustr ''yuanqu'', yuan_dai), (ustr ''ming'', ming_dai),
      (ustr ''qing'', qing_dai), (ustr ''wudai'', wu_dai_shi_guo),
      (ustr ''huajianji'', wu_dai_shi_guo), (ustr ''nantang'', wu_dai_shi_guo),
      (ustr ''jin'', liang_jin), (ustr ''nanbeichao'', nan_bei_chao), (ustr ''sui'', sui_dai),
      (ustr ''caocao'', liang_han), (ustr ''jianan'', liang_han), (ustr ''shijing'', xian_qin),
      (ustr ''chuci'', xian_qin), (ustr ''sishuwujing'', xian_qin), (ustr ''lunyu'', xian_qin)]"

text \<open>The table \<open>classical_texts\<close> of \<open>_infer_dynasty\<close>.\<close>

definition classical_texts :: "(ustring \<times> ustring) list" where
  "classical_texts =
     [(shi_jing, xian_qin), (chu_ci, xian_qin), (lun_yu, xian_qin), (meng_zi, xian_qin),
      (da_xue, xian_qin), (zhong_yong, xian_qin), (si_shu_wu_jing, xian_qin),
      (meng_xue, gu_dai), (ustr ''shijing'', xian_qin), (ustr ''chuci'', xian_qin),
      (ustr ''lunyu'', xian_qin), (ustr ''mengzi'', xian_qin), (ustr ''daxue'', xian_qin),
      (ustr ''zhongyong'', xian_qin), (ustr ''sishuwujing'', xian_qin),
      (ustr ''mengxue'', gu_dai)]"

text \<open>
  \<open>for keyword, value in table.items(): if test(keyword): ... value ...; break\<close>:
  the value of the first entry whose keyword passes the test.
\<close>

fun first_match :: "(ustring \<Rightarrow> bool) \<Rightarrow> (ustring \<times> ustring) list \<Rightarrow> ustring option" where
  "first_match test [] = None"
| "first_match test ((keyword, v) # rest) =
     (if test keyword then Some v else first_match test rest)"

definition infer_dynasty :: "env \<Rightarrow> (ustring \<Rightarrow> ustring option) \<Rightarrow> ustring \<Rightarrow> ustring
    \<Rightarrow> ustring" where
  "infer_dynasty E author_dynasty_map author file_path =
     (case author_dynasty_map author of
        Some d \<Rightarrow> d
      | None \<Rightarrow>
          let file_path_str = lower E file_path
          in case first_match (\<lambda>text. py_substr (lower E text) (lower E file_path_str))
                    classical_texts of
               Some d \<Rightarrow> d
             | None \<Rightarrow>
                 (case first_match (\<lambda>keyword. py_substr keyword file_path_str)
                         path_keyword_map of
                    Some d \<Rightarrow> d
                  | None \<Rightarrow> wei_zhi))"

text \<open>\<open>x.strip()\<close>: only a \<open>str\<close> has the method.\<close>

fun py_strip_method :: "json \<Rightarrow> py_error + ustring" where
  "py_strip_method (JStr s) = Inr (py_strip s)"
| "py_strip_method _ = Inl AttributeError"

text \<open>
  \<open>''.join(x)\<close>: the items of the iteration must all be strings. Iterating a string
  gives its characters, iterating a dictionary its keys.
\<close>

fun py_join :: "json \<Rightarrow> py_error + ustring" where
  "py_join (JArr xs) =
     (if list_all is_str xs then Inr (concat (map (\<lambda>x. case x of JStr s \<Rightarrow> s | _ \<Rightarrow> []) xs))
      else Inl TypeError)"
| "py_join (JStr s) = Inr s"
| "py_join (JObj kvs) = Inr (concat (map fst kvs))"
| "py_join _ = Inl TypeError"

text \<open>
  The body of the \<open>try\<close> block; \<open>Inr None\<close> is the \<open>return None\<close> for an empty
  content.
\<close>

definition process_poem_body :: "env \<Rightarrow> (ustring \<Rightarrow> ustring option) \<Rightarrow> json \<Rightarrow> ustring
    \<Rightarrow> json \<Rightarrow> py_error + poem option" where
  "process_poem_body E author_dynasty_map poem_data file_path fallback_author =
     sbind (py_get poem_data (ustr ''title'') (JStr wu_ti)) (\<lambda>title_value.
     let title = take 500 (convert E (py_strip (py_str E title_value))) in
     sbind (py_get poem_data (ustr ''author'') fallback_author) (\<lambda>author_value.
     let author_str =
           (if \<not> truthy author_value
            then (case first_match (\<lambda>keyword. py_substr keyword (lower E file_path))
                         path_author_map of
                    Some author_name \<Rightarrow> JStr author_name
                  | None \<Rightarrow> JStr yi_ming)
            else author_value) in
     sbind (py_strip_method author_str) (\<lambda>stripped.
     let author = take 200 (convert E stripped) in
     sbind (py_get poem_data (ustr ''dynasty'') (JStr [])) (\<lambda>dynasty_value.
     let dynasty = take 200 (convert E (py_strip (py_str E dynasty_value))) in
     sbind (py_get poem_data (ustr ''paragraphs'') (JArr [])) (\<lambda>content_list.
     sbind (py_join content_list) (\<lambda>joined.
     let content = convert E joined in
     if content = [] then Inr None
     else Inr (Some \<lparr>p_title = title, p_author = author,
                      p_dynasty = (if dynasty = []
                                 then infer_dynasty E author_dynasty_map author file_path
                                 else dynasty),
                      p_content = content\<rparr>)))))))"

text \<open>\<open>try: ... except Exception: return None\<close>\<close>

definition process_poem_data :: "env \<Rightarrow> (ustring \<Rightarrow> ustring option) \<Rightarrow> json \<Rightarrow> ustring
    \<Rightarrow> json \<Rightarrow> poem option" where
  "process_poem_data E author_dynasty_map poem_data file_path fallback_author =
     (case process_poem_body E author_dynasty_map poem_data file_path fallback_author of
        Inl e \<Rightarrow> None
      | Inr r \<Rightarrow> r)"

subsection \<open>The pre-scan: \<open>_create_author_dynasty_map\<close>\<close>

text \<open>
  A source file is its path and what \<open>json.load\<close> gives for it; \<open>None\<close> when opening
  or parsing the file raises.
\<close>

type_synonym source_file = "ustring \<times> json option"

text \<open>
  The \<open>(author, dynasty)\<close> pairs that one poem record adds to \<open>author_dynasties\<close>.
\<close>

definition scan_poem :: "env \<Rightarrow> json \<Rightarrow> py_error + (ustring \<times> ustring) list" where
  "scan_poem E p =
     (if is_dict p then
        sbind (py_get p (ustr ''author'') JNull) (\<lambda>a.
        sbind (py_get p (ustr ''dynasty'') JNull) (\<lambda>d.
          if truthy a \<and> truthy d
          then Inr [(take 200 (convert E (py_strip (py_str E a))),
                     take 200 (convert E (py_strip (py_str E d))))]
          else Inr []))
      else Inr [])"

text \<open>
  The pairs appended while one file is scanned. An exception ends the scan of the file;
  what was appended before it stays.
\<close>

fun scan_poems :: "env \<Rightarrow> json list \<Rightarrow> (ustring \<times> ustring) list" where
  "scan_poems E [] = []"
| "scan_poems E (p # ps) =
     (case scan_poem E p of Inl e \<Rightarrow> [] | Inr pairs \<Rightarrow> pairs @ scan_poems E ps)"

definition scan_file :: "env \<Rightarrow> source_file \<Rightarrow> (ustring \<times> ustring) list" where
  "scan_file E f =
     (case snd f of
        None \<Rightarrow> []
      | Some data \<Rightarrow>
          (case extract_poems_from_data E data of
             Inl e \<Rightarrow> []
           | Inr (poems_list, fallback) \<Rightarrow> scan_poems E poems_list))"

text \<open>The distinct elements of a list in the order of their first occurrence.\<close>

fun uniq :: "'a list \<Rightarrow> 'a list" where
  "uniq [] = []"
| "uniq (x # xs) = x # filter (\<lambda>y. y \<noteq> x) (uniq xs)"

text \<open>
  \<open>Counter(xs).most_common(1)[0][0]\<close>: the most frequent element, the one met first
  among those that tie.
\<close>

definition most_common :: "'a list \<Rightarrow> 'a option" where
  "most_common xs =
     (case uniq xs of
        [] \<Rightarrow> None
      | c # cs \<Rightarrow>
          Some (foldl (\<lambda>best x. if count_list xs best < count_list xs x then x else best) c cs))"

definition create_author_dynasty_map :: "env \<Rightarrow> source_file list \<Rightarrow> ustring \<Rightarrow> ustring option" where
  "create_author_dynasty_map E files =
     (let pairs = concat (map (scan_file E) files)
      in (\<lambda>author. most_common (map snd (filter (\<lambda>p. fst p = author) pairs))))"

text \<open>
  An environment for the examples: a converter that leaves its input unchanged, as
  OpenCC does on text that has no traditional character; the other tables are not
  consulted by the examples.
\<close>

definition plain_env :: env where
  "plain_env = \<lparr>convert = (\<lambda>s. s), py_repr = (\<lambda>x. []), lower = (\<lambda>s. s),
                 is_digit = (\<lambda>c. 48 \<le> c \<and> c \<le> 57)\<rparr>"

text \<open>A record whose title, author and dynasty are longer than the limits.\<close>

definition long_poem :: json where
  "long_poem =
     JObj [(ustr ''title'', JStr (replicate 600 97)),
           (ustr ''author'', JStr (replicate 300 98)),
           (ustr ''dynasty'', JStr (replicate 250 99)),
           (ustr ''paragraphs'', JArr [JStr (ustr ''abcd'')])]"

text \<open>A record whose paragraphs contain spaces.\<close>

definition spaced_poem :: json where
  "spaced_poem =
     JObj [(ustr ''title'', JStr (ustr ''T'')),
           (ustr ''author'', JStr (ustr ''A'')),
           (ustr ''dynasty'', JStr (ustr ''D'')),
           (ustr ''paragraphs'', JArr (map JStr [ustr ''ab cd'', ustr '' ef'']))]"

section \<open>Sentence segmentation: \<open>split_sentences\<close>\<close>

text \<open>
  One alternative of \<open>noise_pattern\<close> of the form \<open>open .*? close\<close>, tried at the
  head of \<open>s\<close>: the lazy \<open>.*?\<close> stops at the first \<open>close\<close> and cannot cross a
  line feed. The result is the length of the match.
\<close>

definition match_delimited :: "nat \<Rightarrow> nat \<Rightarrow> ustring \<Rightarrow> nat option" where
  "match_delimited opening closing s =
     (case s of
        [] \<Rightarrow> None
      | c # rest \<Rightarrow>
          let body = takeWhile (\<lambda>x. x \<noteq> closing) rest
          in if c = opening \<and> length body < length rest \<and> 10 \<notin> set body
             then Some (length body + 2) else None)"

text \<open>The alternative \<open>\[\d+\]\<close> at the head of \<open>s\<close>.\<close>

definition match_footnote :: "env \<Rightarrow> ustring \<Rightarrow> nat option" where
  "match_footnote E s =
     (case s of
        [] \<Rightarrow> None
      | c # rest \<Rightarrow>
          let digits = takeWhile (is_digit E) rest
          in if c = 91 \<and> digits \<noteq> [] \<and> take 1 (drop (length digits) rest) = [93]
             then Some (length digits + 2) else None)"

text \<open>
  \<open>noise_pattern\<close> at the head of \<open>s\<close>: the alternatives in the order of the
  pattern, \<open>\[\d+\]\<close>, then the lenticular brackets, the full-width parentheses, the
  ASCII parentheses and the angle brackets.
\<close>

definition match_noise :: "env \<Rightarrow> ustring \<Rightarrow> nat option" where
  "match_noise E s =
     (case match_footnote E s of Some n \<Rightarrow> Some n | None \<Rightarrow>
      case match_delimited 12304 12305 s of Some n \<Rightarrow> Some n | None \<Rightarrow>
      case match_delimited 65288 65289 s of Some n \<Rightarrow> Some n | None \<Rightarrow>
      case match_delimited 40 41 s of Some n \<Rightarrow> Some n | None \<Rightarrow>
      match_delimited 60 62 s)"

text \<open>
  \<open>noise_pattern.sub('', text)\<close>: scanning from the left, a match is dropped and
  the scan goes on after it; \<open>skip\<close> counts the characters of the current match still to
  drop.
\<close>

fun remove_noise :: "env \<Rightarrow> nat \<Rightarrow> ustring \<Rightarrow> ustring" where
  "remove_noise E skip [] = []"
| "remove_noise E (Suc skip) (c # s) = remove_noise E skip s"
| "remove_noise E 0 (c # s) =
     (case match_noise E (c # s) of
        Some n \<Rightarrow> remove_noise E (n - 1) s
      | None \<Rightarrow> c # remove_noise E 0 s)"

text \<open>\<open>pattern.split(text)\<close> for a pattern that matches one character of a class.\<close>

fun split_on :: "(nat \<Rightarrow> bool) \<Rightarrow> ustring \<Rightarrow> ustring list" where
  "split_on sep [] = [[]]"
| "split_on sep (c # s) =
     (if sep c then [] # split_on sep s
      else case split_on sep s of
             [] \<Rightarrow> [[c]]
           | piece # pieces \<Rightarrow> (c # piece) # pieces)"

text \<open>The class of \<open>sentence_pattern\<close>: full stop, exclamation mark, question mark.\<close>

definition sentence_end :: "nat \<Rightarrow> bool" where
  "sentence_end c \<longleftrightarrow> c = 12290 \<or> c = 65281 \<or> c = 65311"

definition split_sentences :: "env \<Rightarrow> ustring \<Rightarrow> ustring list" where
  "split_sentences E text =
     (let text_cleaned = remove_noise E 0 text;
          text_cleaned = filter (\<lambda>c. \<not> py_space_char c) text_cleaned;
          sentences = split_on sentence_end text_cleaned
      in map py_strip (filter (\<lambda>s. 4 \<le> length (py_strip s)) sentences))"

section \<open>The relational store\<close>

text \<open>
  Modelled from the spec: the four tables of the store (the schema's DDL is not in the
  repository). A dynasty is \<open>(id, name)\<close>, an author \<open>(id, name, dynasty_id)\<close>, a poem
  \<open>(id, title, author_id, full_content)\<close> and a line
  \<open>(id, poem_id, content, embedding)\<close>. A new row gets the next id of its table.
\<close>

record 'v db =
  dynasties :: "(nat \<times> ustring) list"
  authors :: "(nat \<times> ustring \<times> nat) list"
  poems :: "(nat \<times> ustring \<times> nat option \<times> ustring) list"
  lines :: "(nat \<times> nat \<times> ustring \<times> 'v list) list"

definition empty_db :: "'v db" where
  "empty_db = \<lparr>dynasties = [], authors = [], poems = [], lines = []\<rparr>"

definition next_id :: "nat list \<Rightarrow> nat" where
  "next_id ids = Suc (fold max ids 0)"

text \<open>
  A connection with \<open>autocommit = False\<close>: the committed state and the state the open
  transaction sees. \<open>commit\<close> makes the latter the former, \<open>rollback\<close> discards it.
\<close>

record 'v conn =
  committed :: "'v db"
  working :: "'v db"

definition commit :: "'v conn \<Rightarrow> 'v conn" where
  "commit c = c\<lparr>committed := working c\<rparr>"

definition rollback :: "'v conn \<Rightarrow> 'v conn" where
  "rollback c = c\<lparr>working := committed c\<rparr>"

text \<open>
  The statements of one call that can fail. A fault names the statement at which the
  database raises, if the call gets there.
\<close>

datatype step = Cursor | DynastyUpsert | AuthorUpsert | PoemInsert | LineInsert | Commit

text \<open>\<open>INSERT INTO dynasties (name) VALUES (%s) ON CONFLICT (name) DO NOTHING\<close>\<close>

fun insert_dynasties :: "ustring list \<Rightarrow> (nat \<times> ustring) list \<Rightarrow> (nat \<times> ustring) list" where
  "insert_dynasties [] rows = rows"
| "insert_dynasties (name # names) rows =
     insert_dynasties names
       (if name \<in> set (map snd rows) then rows
        else rows @ [(next_id (map fst rows), name)])"

text \<open>
  \<open>INSERT INTO authors (name, dynasty_id) ... ON CONFLICT ON CONSTRAINT uq_author_dynasty
  DO NOTHING\<close>
\<close>

fun insert_authors :: "(ustring \<times> nat) list \<Rightarrow> (nat \<times> ustring \<times> nat) list
    \<Rightarrow> (nat \<times> ustring \<times> nat) list" where
  "insert_authors [] rows = rows"
| "insert_authors (a # as) rows =
     insert_authors as
       (if a \<in> set (map snd rows) then rows
        else rows @ [(next_id (map fst rows), a)])"

text \<open>\<open>INSERT INTO poems ... SELECT * FROM temp_poems RETURNING id\<close>\<close>

fun insert_poems :: "(ustring \<times> nat option \<times> ustring) list
    \<Rightarrow> (nat \<times> ustring \<times> nat option \<times> ustring) list
    \<Rightarrow> (nat \<times> ustring \<times> nat option \<times> ustring) list \<times> nat list" where
  "insert_poems [] rows = (rows, [])"
| "insert_poems (p # ps) rows =
     (let new_id = next_id (map fst rows);
          (rows', ids) = insert_poems ps (rows @ [(new_id, p)])
      in (rows', new_id # ids))"

text \<open>\<open>INSERT INTO lines (poem_id, content, embedding) VALUES (%s, %s, %s)\<close>\<close>

fun insert_lines :: "(nat \<times> ustring \<times> 'v list) list \<Rightarrow> (nat \<times> nat \<times> ustring \<times> 'v list) list
    \<Rightarrow> (nat \<times> nat \<times> ustring \<times> 'v list) list" where
  "insert_lines [] rows = rows"
| "insert_lines (l # ls) rows = insert_lines ls (rows @ [(next_id (map fst rows), l)])"

section \<open>Transactional loader: \<open>process_and_insert_batch\<close>\<close>

text \<open>
  \<open>dynasty_map\<close>: the \<open>SELECT id, name FROM dynasties WHERE name = ANY(%s)\<close> read into
  a dictionary from name to id.
\<close>

definition dynasty_map :: "ustring list \<Rightarrow> (nat \<times> ustring) list \<Rightarrow> ustring \<Rightarrow> nat option" where
  "dynasty_map names rows =
     map_of (map (\<lambda>(i, name). (name, i)) (filter (\<lambda>(i, name). name \<in> set names) rows))"

text \<open>
  \<open>author_map\<close>: the join of authors and dynasties restricted to the batch's
  \<open>(author, dynasty)\<close> pairs, read into a dictionary from the pair to the author's id.
\<close>

definition author_map :: "(ustring \<times> ustring) list \<Rightarrow> 'v db \<Rightarrow> ustring \<times> ustring \<Rightarrow> nat option" where
  "author_map pairs d =
     map_of (concat (map (\<lambda>(aid, aname, did).
               map (\<lambda>(i, dname). ((aname, dname), aid))
                 (filter (\<lambda>(i, dname). i = did \<and> (aname, dname) \<in> set pairs) (dynasties d)))
             (authors d)))"

text \<open>
  The loop that builds \<open>lines_to_insert\<close>: \<open>emb_idx\<close> runs over the sentences of the
  batch, poem after poem; a sentence without a (non-empty) embedding at its index is left
  out.
\<close>

definition lines_to_insert :: "nat list \<Rightarrow> nat list \<Rightarrow> ustring list \<Rightarrow> 'v list option list
    \<Rightarrow> (nat \<times> ustring \<times> 'v list) list" where
  "lines_to_insert poem_ids poem_sentence_counts all_sentences all_embeddings =
     (let owners = concat (map (\<lambda>(poem_id, n). replicate n poem_id)
                             (zip poem_ids poem_sentence_counts))
      in List.map_filter
           (\<lambda>emb_idx.
              if emb_idx < length all_embeddings
              then (case all_embeddings ! emb_idx of
                      Some e \<Rightarrow>
                        if e \<noteq> [] then Some (owners ! emb_idx, all_sentences ! emb_idx, e)
                        else None
                    | None \<Rightarrow> None)
              else None)
           [0..<length owners])"

text \<open>
  \<open>raise\<close> at a statement when the fault names it.
\<close>

definition at_step :: "step option \<Rightarrow> step \<Rightarrow> py_error + unit" where
  "at_step fault s = (if fault = Some s then Inl DatabaseError else Inr ())"

text \<open>
  The body of the \<open>try\<close> block, on the state the transaction sees, up to and without
  the commit. \<open>sched\<close> gives, for a number of sub-batches, the order in which their
  workers complete.
\<close>

definition batch_body :: "env \<Rightarrow> 'v service \<Rightarrow> (nat \<Rightarrow> nat list) \<Rightarrow> step option \<Rightarrow> poem list
    \<Rightarrow> 'v db \<Rightarrow> py_error + 'v db" where
  "batch_body E svc sched fault poem_batch d0 =
     (let dynasty_names = remdups (map p_dynasty poem_batch);
          author_pairs = remdups (map (\<lambda>p. (p_author p, p_dynasty p)) poem_batch)
      in
      sbind (at_step fault DynastyUpsert) (\<lambda>_.
      let d1 = d0\<lparr>dynasties := insert_dynasties dynasty_names (dynasties d0)\<rparr>;
          dmap = dynasty_map dynasty_names (dynasties d1);
          authors_to_insert =
            List.map_filter (\<lambda>(name, dyn). case dmap dyn of
                                None \<Rightarrow> None
                              | Some i \<Rightarrow> if i \<noteq> 0 then Some (name, i) else None) author_pairs
      in
      sbind (at_step fault AuthorUpsert) (\<lambda>_.
      let d2 = d1\<lparr>authors := insert_authors authors_to_insert (authors d1)\<rparr>;
          amap = author_map author_pairs d2;
          poems_to_insert =
            map (\<lambda>p. (p_title p, amap (p_author p, p_dynasty p), p_content p)) poem_batch
      in
      sbind (at_step fault PoemInsert) (\<lambda>_.
      let (rows, poem_ids) = insert_poems poems_to_insert (poems d2);
          d3 = d2\<lparr>poems := rows\<rparr>;
          sentences = map (\<lambda>p. split_sentences E (p_content p)) poem_batch;
          all_sentences = concat sentences;
          poem_sentence_counts = map length sentences
      in
      if all_sentences \<noteq> [] then
        sbind (gather_embeddings svc (sched (length (sub_batches all_sentences))) all_sentences)
          (\<lambda>all_embeddings.
        let to_insert = lines_to_insert poem_ids poem_sentence_counts all_sentences
                          all_embeddings
        in if to_insert \<noteq> [] then
             sbind (at_step fault LineInsert) (\<lambda>_.
               Inr (d3\<lparr>lines := insert_lines to_insert (lines d3)\<rparr>))
           else Inr d3)
      else Inr d3))))"

text \<open>
  The whole function. \<open>conn.cursor()\<close> is outside the \<open>try\<close>; the handler of the
  \<open>try\<close> logs, rolls back and ends, so the function returns normally. The first
  component of the result tells whether the call raised.
\<close>

definition process_and_insert_batch :: "env \<Rightarrow> 'v service \<Rightarrow> (nat \<Rightarrow> nat list) \<Rightarrow> step option
    \<Rightarrow> poem list \<Rightarrow> 'v conn \<Rightarrow> py_error option \<times> 'v conn" where
  "process_and_insert_batch E svc sched fault poem_batch c =
     (if poem_batch = [] then (None, c)
      else if fault = Some Cursor then (Some DatabaseError, c)
      else
        case sbind (batch_body E svc sched fault poem_batch (working c))
               (\<lambda>d. sbind (at_step fault Commit) (\<lambda>_. Inr d)) of
          Inr d \<Rightarrow> (None, commit (c\<lparr>working := d\<rparr>))
        | Inl e \<Rightarrow> (None, rollback c))"

section \<open>The import run: \<open>run_import\<close>\<close>

text \<open>
  The state of a run: the connection, the lines of the checkpoint log and the number of
  calls of \<open>process_and_insert_batch\<close> made so far, which selects the call's fault.
\<close>

record 'v world =
  conn :: "'v conn"
  processed_log :: "ustring list"
  batch_calls :: nat

definition mark_file_as_processed :: "ustring \<Rightarrow> 'v world \<Rightarrow> 'v world" where
  "mark_file_as_processed file_path w = w\<lparr>processed_log := processed_log w @ [file_path]\<rparr>"

text \<open>\<open>load_processed_files\<close>: the stripped lines of the log.\<close>

definition load_processed_files :: "'v world \<Rightarrow> ustring set" where
  "load_processed_files w = set (map py_strip (processed_log w))"

text \<open>What does not change during a run.\<close>

record 'v setting =
  environment :: env
  service :: "'v service"
  schedule :: "nat \<Rightarrow> nat list"
  faults :: "nat \<Rightarrow> step option"
  author_dynasties :: "ustring \<Rightarrow> ustring option"

definition insert_call :: "'v setting \<Rightarrow> poem list \<Rightarrow> 'v world \<Rightarrow> py_error option \<times> 'v world" where
  "insert_call S poem_batch w =
     (let (raised, c) = process_and_insert_batch (environment S) (service S) (schedule S)
                          (faults S (batch_calls w)) poem_batch (conn w)
      in (raised, w\<lparr>conn := c, batch_calls := Suc (batch_calls w)\<rparr>))"

text \<open>
  The loop over \<open>poems_list\<close>. The result tells whether a call raised, and gives the
  batch left over and the state.
\<close>

fun import_poems :: "'v setting \<Rightarrow> ustring \<Rightarrow> json \<Rightarrow> json list \<Rightarrow> poem list \<Rightarrow> 'v world
    \<Rightarrow> py_error option \<times> poem list \<times> 'v world" where
  "import_poems S file_path file_level_author [] poem_batch w = (None, poem_batch, w)"
| "import_poems S file_path file_level_author (poem_data # rest) poem_batch w =
     (if \<not> is_dict poem_data then import_poems S file_path file_level_author rest poem_batch w
      else
        let poem_batch' =
              (case process_poem_data (environment S) (author_dynasties S) poem_data file_path
                      file_level_author of
                 Some processed \<Rightarrow> poem_batch @ [processed]
               | None \<Rightarrow> poem_batch)
        in if db_batch_size \<le> length poem_batch'
           then (case insert_call S poem_batch' w of
                   (Some e, w') \<Rightarrow> (Some e, [], w')
                 | (None, w') \<Rightarrow> import_poems S file_path file_level_author rest [] w')
           else import_poems S file_path file_level_author rest poem_batch' w)"

text \<open>The handler of the per-file \<open>try\<close>: log and roll back; the file is not marked.\<close>

definition file_failed :: "'v world \<Rightarrow> 'v world" where
  "file_failed w = w\<lparr>conn := rollback (conn w)\<rparr>"

text \<open>The body of the loop over \<open>files_to_process\<close>.\<close>

definition process_file :: "'v setting \<Rightarrow> source_file \<Rightarrow> 'v world \<Rightarrow> 'v world" where
  "process_file S f w =
     (case snd f of
        None \<Rightarrow> file_failed w
      | Some data \<Rightarrow>
          (case extract_poems_from_data (environment S) data of
             Inl e \<Rightarrow> file_failed w
           | Inr (poems_list, file_level_author) \<Rightarrow>
               if poems_list = [] then mark_file_as_processed (fst f) w
               else
                 (case import_poems S (fst f) file_level_author poems_list [] w of
                    (Some e, poem_batch, w') \<Rightarrow> file_failed w'
                  | (None, poem_batch, w') \<Rightarrow>
                      if poem_batch \<noteq> [] then
                        (case insert_call S poem_batch w' of
                           (Some e, w'') \<Rightarrow> file_failed w''
                         | (None, w'') \<Rightarrow> mark_file_as_processed (fst f) w'')
                      else mark_file_as_processed (fst f) w')))"

text \<open>
  \<open>PoetryImporter()\<close> followed by \<open>run_import()\<close> over the source files: the pre-scan
  builds the author-to-dynasty table, the files already in the log are left out, the
  others are processed one after the other, and \<open>conn.close()\<close> in the \<open>finally\<close>
  clause discards a transaction left open.
\<close>

definition run_import :: "env \<Rightarrow> 'v service \<Rightarrow> (nat \<Rightarrow> nat list) \<Rightarrow> (nat \<Rightarrow> step option)
    \<Rightarrow> source_file list \<Rightarrow> 'v world \<Rightarrow> 'v world" where
  "run_import E svc sched flt files w =
     (let S = \<lparr>environment = E, service = svc, schedule = sched, faults = flt,
                author_dynasties = create_author_dynasty_map E files\<rparr>;
          processed_files = load_processed_files w;
          files_to_process = filter (\<lambda>f. fst f \<notin> processed_files) files;
          w' = fold (process_file S) files_to_process w
      in w'\<lparr>conn := rollback (conn w')\<rparr>)"

text \<open>A fresh store, an empty log.\<close>

definition fresh_world :: "'v world" where
  "fresh_world = \<lparr>conn = \<lparr>committed = empty_db, working = empty_db\<rparr>, processed_log = [],
                   batch_calls = 0\<rparr>"

text \<open>The workers complete in submission order.\<close>

definition in_order :: "nat \<Rightarrow> nat list" where
  "in_order n = [0..<n]"

text \<open>No statement fails.\<close>

definition no_fault :: "nat \<Rightarrow> step option" where
  "no_fault n = None"

text \<open>
  The document \<open>{title: "T", author: "A", dynasty: "D", paragraphs: [..., ...]}\<close> of the
  scenario, its two paragraphs being two characters and a sentence mark each, and the
  one-file corpus that holds it.
\<close>

definition yi_ju :: ustring where "yi_ju = [19968, 21477, 12290]"
definition er_ju :: ustring where "er_ju = [20108, 21477, 65281]"

definition scenario_doc :: json where
  "scenario_doc =
     JObj [(ustr ''title'', JStr (ustr ''T'')),
           (ustr ''author'', JStr (ustr ''A'')),
           (ustr ''dynasty'', JStr (ustr ''D'')),
           (ustr ''paragraphs'', JArr [JStr yi_ju, JStr er_ju])]"

definition scenario_corpus :: "source_file list" where
  "scenario_corpus = [(ustr ''corpus/one.json'', Some scenario_doc)]"

text \<open>A corpus of one file with one poem of one long sentence.\<close>

definition one_poem_doc :: json where
  "one_poem_doc =
     JArr [JObj [(ustr ''title'', JStr (ustr ''T'')),
                 (ustr ''author'', JStr (ustr ''A'')),
                 (ustr ''dynasty'', JStr (ustr ''D'')),
                 (ustr ''paragraphs'', JArr [JStr (ustr ''abcdef'')])]]"

definition one_poem_corpus :: "source_file list" where
  "one_poem_corpus = [(ustr ''corpus/poem.json'', Some one_poem_doc)]"

text \<open>The insert into \<open>poems\<close> fails in the first call of the loader.\<close>

definition poem_insert_fails :: "nat \<Rightarrow> step option" where
  "poem_insert_fails n = (if n = 0 then Some PoemInsert else None)"

text \<open>The record that \<open>process_poem_data\<close> makes of the scenario's document.\<close>

definition scenario_poem :: poem where
  "scenario_poem = \<lparr>p_title = ustr ''T'', p_author = ustr ''A'', p_dynasty = ustr ''D'',
                     p_content = yi_ju @ er_ju\<rparr>"

text \<open>The converter leaves the four texts of the scenario unchanged.\<close>

definition fixes_scenario :: "env \<Rightarrow> bool" where
  "fixes_scenario E \<longleftrightarrow>
     convert E (ustr ''T'') = ustr ''T'' \<and> convert E (ustr ''A'') = ustr ''A''
     \<and> convert E (ustr ''D'') = ustr ''D'' \<and> convert E (yi_ju @ er_ju) = yi_ju @ er_ju"

text \<open>The store after the scenario: one dynasty, one author, one poem, no line.\<close>

definition scenario_db :: "'v db" where
  "scenario_db = \<lparr>dynasties = [(1, ustr ''D'')], authors = [(1, ustr ''A'', 1)],
                   poems = [(1, ustr ''T'', Some 1, yi_ju @ er_ju)], lines = []\<rparr>"

text \<open>The record of the one-poem corpus and the store after its successful import.\<close>

definition one_poem :: poem where
  "one_poem = \<lparr>p_title = ustr ''T'', p_author = ustr ''A'', p_dynasty = ustr ''D'',
                p_content = ustr ''abcdef''\<rparr>"

definition one_poem_db :: "real db" where
  "one_poem_db = \<lparr>dynasties = [(1, ustr ''D'')], authors = [(1, ustr ''A'', 1)],
                   poems = [(1, ustr ''T'', Some 1, ustr ''abcdef'')],
                   lines = [(1, 1, ustr ''abcdef'', [6])]\<rparr>"

section \<open>Semantic search: \<open>semantic_search\<close>\<close>

text \<open>
  Floating-point numbers are read as real numbers here. \<open>np.mean(embeddings, axis=0)\<close>
  is the component-wise mean of the phrase embeddings.
\<close>

definition mean_vector :: "real list list \<Rightarrow> real list" where
  "mean_vector vs =
     (case vs of
        [] \<Rightarrow> []
      | v # _ \<Rightarrow> map (\<lambda>i. (\<Sum>u\<leftarrow>vs. u ! i) / real (length vs)) [0..<length v])"

text \<open>
  Modelled from the spec: the cosine distance of two vectors, which the store's operator
  \<open><=>\<close> computes (the operator belongs to the database, not to the repository).
\<close>

definition dot :: "real list \<Rightarrow> real list \<Rightarrow> real" where
  "dot a b = (\<Sum>(x, y)\<leftarrow>zip a b. x * y)"

definition cosine_distance :: "real list \<Rightarrow> real list \<Rightarrow> real" where
  "cosine_distance a b = 1 - dot a b / (sqrt (dot a a) * sqrt (dot b b))"

text \<open>
  The rows the query reads: a poem is \<open>(id, title, author, dynasty, full_content)\<close>, a
  line \<open>(poem_id, embedding)\<close> with \<open>None\<close> for a null embedding.
\<close>

record search_store =
  s_poems :: "(nat \<times> ustring \<times> ustring \<times> ustring \<times> ustring) list"
  s_lines :: "(nat \<times> real list option) list"

text \<open>
  \<open>MIN(l.embedding <=> query)\<close> over the lines of one poem that have an embedding;
  \<open>None\<close> when the join leaves no row for the poem.
\<close>

definition min_distance :: "real list \<Rightarrow> search_store \<Rightarrow> nat \<Rightarrow> real option" where
  "min_distance query st poem_id =
     (case List.map_filter (\<lambda>(pid, e). if pid = poem_id then map_option (\<lambda>v. cosine_distance v query) e
                                      else None) (s_lines st) of
        [] \<Rightarrow> None
      | d # ds \<Rightarrow> Some (fold min ds d))"

text \<open>
  The vector query: one row per poem with its minimum distance, \<open>ORDER BY distance ASC\<close>,
  then \<open>LIMIT\<close> and \<open>OFFSET\<close>.
\<close>

definition vector_search :: "real list \<Rightarrow> nat \<Rightarrow> nat \<Rightarrow> search_store
    \<Rightarrow> ((nat \<times> ustring \<times> ustring \<times> ustring \<times> ustring) \<times> real) list" where
  "vector_search query limit offset st =
     take limit (drop offset
       (sort_key snd
          (List.map_filter (\<lambda>p. map_option (\<lambda>d. (p, d)) (min_distance query st (fst p)))
             (s_poems st))))"

text \<open>\<open>round(x, 4)\<close>: to four decimals, a tie going to the even neighbour.\<close>

definition round_half_even :: "real \<Rightarrow> int" where
  "round_half_even x =
     (let f = \<lfloor>x\<rfloor>; r = x - of_int f
      in if r < 1 / 2 then f else if 1 / 2 < r then f + 1 else if even f then f else f + 1)"

definition py_round4 :: "real \<Rightarrow> real" where
  "py_round4 x = of_int (round_half_even (x * 10000)) / 10000"

text \<open>
  \<open>similarity_score = 1.0 - float(row['distance']) if row['distance'] else 0.0\<close>:
  the condition is the truth value of the distance, and \<open>0.0\<close> is false.
\<close>

definition similarity_score :: "real \<Rightarrow> real" where
  "similarity_score distance = (if distance \<noteq> 0 then 1 - distance else 0)"

record poem_response =
  r_id :: nat
  r_title :: ustring
  r_author :: ustring
  r_dynasty :: ustring
  r_content :: ustring
  r_score :: real

definition to_response :: "(nat \<times> ustring \<times> ustring \<times> ustring \<times> ustring) \<times> real \<Rightarrow> poem_response" where
  "to_response row =
     (case row of ((i, t, a, d, c), distance) \<Rightarrow>
        \<lparr>r_id = i, r_title = t, r_author = a, r_dynasty = d, r_content = c,
         r_score = py_round4 (similarity_score distance)\<rparr>)"

text \<open>
  The endpoint after the phrase embeddings have been fetched: the results and the total,
  the number of poems with an embedded line, capped at 1000.
\<close>

definition semantic_search :: "real list list \<Rightarrow> nat \<Rightarrow> nat \<Rightarrow> search_store
    \<Rightarrow> nat \<times> poem_response list" where
  "semantic_search phrase_embeddings limit offset st =
     (let query_embedding = mean_vector phrase_embeddings;
          results = vector_search query_embedding limit offset st;
          total_with_embeddings =
            length (remdups (List.map_filter (\<lambda>(pid, e). map_option (\<lambda>v. pid) e) (s_lines st)))
      in (min total_with_embeddings 1000, map to_response results))"

text \<open>A store with one poem whose only line has the embedding \<open>(1, 0)\<close>.\<close>

definition exact_store :: search_store where
  "exact_store =
     \<lparr>s_poems = [(1, ustr ''T'', ustr ''A'', ustr ''D'', ustr ''abcdef'')],
      s_lines = [(1, Some [1, 0])]\<rparr>"

section \<open>Properties of the embedding client\<close>

lemma upt_3: "[0..<(3::nat)] = [0, Suc 0, 2]"
  by (simp add: upt_rec numeral_2_eq_2 numeral_3_eq_3)

lemma upt3: "[0..<max_retries] = [0, Suc 0, 2]"
  by (simp add: max_retries_def upt_3)

lemmas text_eval = ustr_def valid_texts_def valid_indices_def nonblank_def py_isspace_def
  py_space_char_def retry_delay_def upt_3

lemma retry_loop_400:
  "post 0 = HTTPError 400 \<Longrightarrow> retry_loop post [0..<max_retries] = \<lparr>api_results = None, calls = 1, sleeps = []\<rparr>"
  by (simp add: upt3)

lemma retry_loop_retried:
  "\<forall>a<max_retries. retried (post a) \<Longrightarrow> retry_loop post [0..<max_retries] = \<lparr>api_results = None, calls = 3, sleeps = [2, 4]\<rparr>"
  apply (simp add: upt3)
  apply (auto simp: retried_def max_retries_def retry_delay_def Let_def split: outcome.splits)
  done

lemma retry_loop_answer:
  "api_results (retry_loop post as) = map_option (\<lambda>items. map snd (sort_key fst items)) (answer post as)"
  by (induction as) (auto simp: Let_def split: outcome.splits)

lemma rehydrate_ok:
  "i + length embs \<le> length vi \<Longrightarrow>
   \<exists>res'. rehydrate vi i embs res = Inr res' \<and> length res' = length res \<and>
     (\<forall>p. (\<forall>j<length embs. vi ! (i + j) \<noteq> p) \<longrightarrow> res' ! p = res ! p) \<and>
     (distinct vi \<longrightarrow> (\<forall>j<length vi. vi ! j < length res) \<longrightarrow> (\<forall>j<length embs. res' ! (vi ! (i + j)) = Some (embs ! j)))"
proof (induction embs arbitrary: i res)
  case Nil
  then show ?case by simp
next
  case (Cons e embs)
  from Cons.prems have i: "i < length vi" and le: "Suc i + length embs \<le> length vi" by auto
  from Cons.IH[OF le, of "res[vi ! i := Some e]"] obtain res' where
    r: "rehydrate vi (Suc i) embs (res[vi ! i := Some e]) = Inr res'"
    and l: "length res' = length res"
    and keep: "\<forall>p. (\<forall>j<length embs. vi ! (Suc i + j) \<noteq> p) \<longrightarrow> res' ! p = (res[vi ! i := Some e]) ! p"
    and put: "distinct vi \<longrightarrow> (\<forall>j<length vi. vi ! j < length res) \<longrightarrow> (\<forall>j<length embs. res' ! (vi ! (Suc i + j)) = Some (embs ! j))"
    by auto
  have "rehydrate vi i (e # embs) res = Inr res'" using i r by simp
  moreover have "\<forall>p. (\<forall>j<length (e # embs). vi ! (i + j) \<noteq> p) \<longrightarrow> res' ! p = res ! p"
  proof (intro allI impI)
    fix p assume h: "\<forall>j<length (e # embs). vi ! (i + j) \<noteq> p"
    then have "vi ! i \<noteq> p" by force
    moreover have "\<forall>j<length embs. vi ! (Suc i + j) \<noteq> p" using h by force
    ultimately show "res' ! p = res ! p" using keep by simp
  qed
  moreover have "distinct vi \<longrightarrow> (\<forall>j<length vi. vi ! j < length res) \<longrightarrow> (\<forall>j<length (e # embs). res' ! (vi ! (i + j)) = Some ((e # embs) ! j))"
  proof (intro allI impI)
    fix j assume d: "distinct vi" and b: "\<forall>j<length vi. vi ! j < length res" and j: "j < length (e # embs)"
    show "res' ! (vi ! (i + j)) = Some ((e # embs) ! j)"
    proof (cases j)
      case 0
      have "\<forall>j'<length embs. vi ! (Suc i + j') \<noteq> vi ! i"
        using d le i by (auto simp: nth_eq_iff_index_eq)
      then have "res' ! (vi ! i) = (res[vi ! i := Some e]) ! (vi ! i)" using keep by blast
      then show ?thesis using 0 b i by simp
    next
      case (Suc j')
      then show ?thesis using put d b j by simp
    qed
  qed
  ultimately show ?case using l by blast
qed

lemma valid_indices_map: "map (nth texts) (valid_indices texts) = valid_texts texts"
proof -
  have "valid_texts texts = filter nonblank (map (nth texts) [0..<length texts])"
    by (simp add: valid_texts_def map_nth)
  also have "\<dots> = map (nth texts) (filter (nonblank \<circ> nth texts) [0..<length texts])"
    by (simp only: filter_map)
  finally show ?thesis by (simp add: valid_indices_def comp_def)
qed

lemma valid_indices_length: "length (valid_indices texts) = length (valid_texts texts)"
  using valid_indices_map [of texts] by (metis length_map)

lemma valid_indices_distinct: "distinct (valid_indices texts)"
  by (simp add: valid_indices_def)

lemma valid_indices_set: "set (valid_indices texts) = {i. i < length texts \<and> nonblank (texts ! i)}"
  by (auto simp: valid_indices_def)

lemma answer_Some: "answer post as = Some items \<Longrightarrow> \<exists>a\<in>set as. post a = Data items"
  by (induction as) (auto split: outcome.splits if_splits)

lemma map_fst_sort_key: "map fst (sort_key fst items) = sort (map fst items)"
  by (rule properties_for_sort [symmetric]) simp_all

lemma conforming_answer:
  assumes "conforming svc texts"
    and "answer (svc (valid_texts texts)) [0..<max_retries] = Some items"
  shows "map fst (sort_key fst items) = map int [0..<length (valid_texts texts)]"
proof -
  from answer_Some [OF assms(2)] obtain a where
    a: "a \<in> set [0..<max_retries]" and d: "svc (valid_texts texts) a = Data items"
    by blast
  from assms(1) a d have "sort (map fst items) = map int [0..<length (valid_texts texts)]"
    unfolding conforming_def list_all_iff by fastforce
  then show ?thesis by (simp add: map_fst_sort_key)
qed

text \<open>
  Claim C7. When the service keeps to its interface (\<open>conforming\<close>),
  \<open>get_batch_embeddings\<close> returns, for every batch of texts, a list as long as the
  batch; every empty or whitespace-only text has \<open>None\<close> at its own index; when the
  retry loop stops on a \<open>data\<close> response, the embedding that the response labels with
  index \<open>j\<close> is at the original position of the \<open>j\<close>-th non-blank text; and when
  the loop ends without a \<open>data\<close> response the list is \<open>None\<close> everywhere and
  nothing is raised.
\<close>

theorem get_batch_embeddings_shape:
  assumes "conforming svc texts"
  shows "\<exists>r. get_batch_embeddings svc texts = Inr r
          \<and> length (embeddings r) = length texts
          \<and> (\<forall>i<length texts. \<not> nonblank (texts ! i) \<longrightarrow> embeddings r ! i = None)
          \<and> (case answer (svc (valid_texts texts)) [0..<max_retries] of
                None \<Rightarrow> embeddings r = replicate (length texts) None
              | Some items \<Rightarrow>
                  \<forall>(idx, e) \<in> set items.
                     embeddings r ! (valid_indices texts ! nat idx) = Some e)"
proof (cases "valid_texts texts = []")
  case True
  have nb: "\<forall>i<length texts. \<not> nonblank (texts ! i)"
    using True by (auto simp: valid_texts_def filter_empty_conv)
  have items: "answer (svc (valid_texts texts)) [0..<max_retries] = Some items \<Longrightarrow> items = []"
    for items
  proof -
    assume "answer (svc (valid_texts texts)) [0..<max_retries] = Some items"
    from conforming_answer [OF assms this] True
    have "length (sort_key fst items) = 0" by simp
    then have "length items = 0" by (simp del: length_0_conv)
    then show "items = []" by simp
  qed
  have g: "get_batch_embeddings svc texts
          = Inr \<lparr>embeddings = replicate (length texts) None, requests = 0, slept = []\<rparr>"
    using True by (simp add: get_batch_embeddings_def)
  show ?thesis
  proof (cases "answer (svc (valid_texts texts)) [0..<max_retries]")
    case None
    then show ?thesis using g nb by simp
  next
    case (Some its)
    then have "its = []" by (rule items)
    then show ?thesis using g nb Some by simp
  qed
next
  case False
  let ?post = "svc (valid_texts texts)"
  let ?vi = "valid_indices texts"
  let ?none = "replicate (length texts) None :: 'a list option list"
  have ne: "texts \<noteq> []" using False by (auto simp: valid_texts_def)
  show ?thesis
  proof (cases "answer ?post [0..<max_retries]")
    case None
    then have "api_results (retry_loop ?post [0..<max_retries]) = None"
      by (simp add: retry_loop_answer)
    then show ?thesis using None False ne
      by (simp add: get_batch_embeddings_def Let_def)
  next
    case (Some items)
    let ?sorted = "sort_key fst items"
    let ?embs = "map snd ?sorted"
    have idx: "map fst ?sorted = map int [0..<length (valid_texts texts)]"
      by (rule conforming_answer [OF assms Some])
    have len: "length ?embs = length ?vi"
      using arg_cong [OF idx, of length] by (simp add: valid_indices_length)
    have embs_ne: "?embs \<noteq> []"
      using len False valid_indices_length [of texts] by (metis length_0_conv)
    have api: "api_results (retry_loop ?post [0..<max_retries]) = Some ?embs"
      using Some by (simp add: retry_loop_answer)
    have bound: "\<forall>j<length ?vi. ?vi ! j < length ?none"
    proof (intro allI impI)
      fix j assume "j < length ?vi"
      then have "?vi ! j \<in> set ?vi" by simp
      then show "?vi ! j < length ?none" by (simp add: valid_indices_set)
    qed
    from rehydrate_ok [of 0 ?embs ?vi ?none] len obtain res' where
      r: "rehydrate ?vi 0 ?embs ?none = Inr res'"
      and l: "length res' = length texts"
      and keep: "\<forall>p. (\<forall>j<length ?embs. ?vi ! j \<noteq> p) \<longrightarrow> res' ! p = ?none ! p"
      and put: "\<forall>j<length ?embs. res' ! (?vi ! j) = Some (?embs ! j)"
      using valid_indices_distinct [of texts] bound by auto
    have blank: "\<forall>i<length texts. \<not> nonblank (texts ! i) \<longrightarrow> res' ! i = None"
    proof (intro allI impI)
      fix i assume i: "i < length texts" and b: "\<not> nonblank (texts ! i)"
      have "i \<notin> set ?vi" using b by (simp add: valid_indices_set)
      then have "\<forall>j<length ?embs. ?vi ! j \<noteq> i" using len by (metis nth_mem)
      then show "res' ! i = None" using keep i by simp
    qed
    have placed: "\<forall>(idx, e) \<in> set items. res' ! (?vi ! nat idx) = Some e"
    proof (clarify)
      fix ix e assume "(ix, e) \<in> set items"
      then have "(ix, e) \<in> set ?sorted" by simp
      then obtain j where j: "j < length ?sorted" and s: "?sorted ! j = (ix, e)"
        by (metis in_set_conv_nth)
      have jk: "j < length (valid_texts texts)"
        using j len valid_indices_length [of texts] by simp
      have "map fst ?sorted ! j = map int [0..<length (valid_texts texts)] ! j"
        by (simp only: idx)
      then have "fst (?sorted ! j) = int j"
        using j jk by simp
      then have "nat ix = j" using s by simp
      moreover have "?embs ! j = e" using j s by simp
      ultimately show "res' ! (?vi ! nat ix) = Some e" using put j by simp
    qed
    have "get_batch_embeddings svc texts
            = Inr \<lparr>embeddings = res', requests = calls (retry_loop ?post [0..<max_retries]),
                   slept = sleeps (retry_loop ?post [0..<max_retries])\<rparr>"
      using False ne api embs_ne r by (simp add: get_batch_embeddings_def Let_def)
    then show ?thesis using l blank placed Some by simp
  qed
qed

text \<open>
  The theorem at a batch with a blank text in the middle, against \<open>echo_service\<close>.
\<close>

theorem get_batch_embeddings_shape_witness:
  "conforming echo_service [ustr ''abcd'', ustr '' '', ustr ''efghi'']
   \<and> get_batch_embeddings echo_service [ustr ''abcd'', ustr '' '', ustr ''efghi'']
       = Inr \<lparr>embeddings = [Some [4], None, Some [5]], requests = 2, slept = [2]\<rparr>"
proof -
  have c: "conforming echo_service [ustr ''abcd'', ustr '' '', ustr ''efghi'']"
    by (simp add: conforming_def upt3 text_eval echo_service_def)
  have "get_batch_embeddings echo_service [ustr ''abcd'', ustr '' '', ustr ''efghi'']
       = Inr \<lparr>embeddings = [Some [4], None, Some [5]], requests = 2, slept = [2]\<rparr>"
    by (simp add: get_batch_embeddings_def upt3 text_eval echo_service_def Let_def max_retries_def)
  with c get_batch_embeddings_shape [OF c] show ?thesis by blast
qed

text \<open>
  Claim C6, amended. Status 400 is the one HTTP status that ends the retry loop at once:
  one request, no sleep, every result \<open>None\<close>. When every attempt ends in another
  failure (an HTTP error with any status other than 400, another exception, or a body
  without \<open>data\<close>), three requests are sent, with sleeps of 2 and 4 seconds between
  them, and every result is \<open>None\<close>.
\<close>

theorem client_error_retry_policy:
  assumes "valid_texts texts \<noteq> []"
  shows "(svc (valid_texts texts) 0 = HTTPError 400 \<longrightarrow>
            get_batch_embeddings svc texts
              = Inr \<lparr>embeddings = replicate (length texts) None, requests = 1, slept = []\<rparr>)
       \<and> ((\<forall>attempt<max_retries. retried (svc (valid_texts texts) attempt)) \<longrightarrow>
            get_batch_embeddings svc texts
              = Inr \<lparr>embeddings = replicate (length texts) None, requests = 3,
                     slept = [2, 4]\<rparr>)"
proof -
  have ne: "texts \<noteq> []" using assms by (auto simp: valid_texts_def)
  show ?thesis
    using assms ne
    by (simp add: get_batch_embeddings_def Let_def retry_loop_400 retry_loop_retried)
qed

text \<open>The theorem at one text, against a service answering 403 and one answering 400.\<close>

theorem client_error_retry_policy_witness:
  "valid_texts [ustr ''abcd''] \<noteq> []
   \<and> list_all (\<lambda>attempt. retried ((always_status 403 :: real service)
                                     (valid_texts [ustr ''abcd'']) attempt)) [0..<max_retries]
   \<and> get_batch_embeddings (always_status 403 :: real service) [ustr ''abcd'']
       = Inr \<lparr>embeddings = [None], requests = 3, slept = [2, 4]\<rparr>
   \<and> (always_status 400 :: real service) (valid_texts [ustr ''abcd'']) 0 = HTTPError 400
   \<and> get_batch_embeddings (always_status 400 :: real service) [ustr ''abcd'']
       = Inr \<lparr>embeddings = [None], requests = 1, slept = []\<rparr>"
proof -
  have v: "valid_texts [ustr ''abcd''] \<noteq> []" by (simp add: text_eval)
  have r: "\<forall>attempt<max_retries. retried ((always_status 403 :: real service) (valid_texts [ustr ''abcd'']) attempt)"
    by (simp add: always_status_def retried_def)
  have b: "(always_status 400 :: real service) (valid_texts [ustr ''abcd'']) 0 = HTTPError 400"
    by (simp add: always_status_def)
  from client_error_retry_policy [OF v, of "always_status 403 :: real service"]
       client_error_retry_policy [OF v, of "always_status 400 :: real service"] v r b
  show ?thesis by (simp add: list_all_iff)
qed

text \<open>
  Claim C6 as stated fails: a service that answers 404 to every request is asked three
  times, with both sleeps, so a client error other than 400 does not end the loop.
\<close>

theorem client_error_404_is_retried:
  "get_batch_embeddings (always_status 404 :: real service) [ustr ''abcd'']
     = Inr \<lparr>embeddings = [None], requests = 3, slept = [2, 4]\<rparr>"
  by (simp add: get_batch_embeddings_def upt3 text_eval always_status_def Let_def max_retries_def)

section \<open>Properties of the concurrent orchestrator\<close>

lemma rehydrate_error: "rehydrate vi i embs res = Inl e \<Longrightarrow> e = IndexError"
  by (induction embs arbitrary: i res) (auto split: if_splits)

lemma get_batch_embeddings_error:
  "get_batch_embeddings svc texts = Inl e \<Longrightarrow> e = IndexError"
  by (auto simp: get_batch_embeddings_def Let_def split: if_splits option.splits sum.splits
           dest: rehydrate_error)

lemma futures_of_error:
  "f \<in> set (futures_of svc sents) \<Longrightarrow> f = Inl e \<Longrightarrow> e = IndexError"
  by (auto simp: futures_of_def split: sum.splits dest: get_batch_embeddings_error)

lemma collect_all_ok:
  assumes "\<forall>i\<in>set order. i < length futures \<and> isl (futures ! i) = False"
    and "length results = length futures"
  shows "\<exists>res. collect order futures results = Inr res \<and> length res = length futures
           \<and> (\<forall>i<length futures. res ! i = (if i \<in> set order then Some (projr (futures ! i))
                                              else results ! i))"
  using assms
proof (induction order arbitrary: results)
  case Nil
  then show ?case by simp
next
  case (Cons index rest)
  from Cons.prems obtain v where v: "futures ! index = Inr v" and ix: "index < length futures"
    by (cases "futures ! index") auto
  have "\<forall>i\<in>set rest. i < length futures \<and> isl (futures ! i) = False"
    using Cons.prems(1) by simp
  moreover have "length (results[index := Some v]) = length futures"
    using Cons.prems(2) by simp
  ultimately obtain res where
    r: "collect rest futures (results[index := Some v]) = Inr res"
    and l: "length res = length futures"
    and n: "\<forall>i<length futures. res ! i = (if i \<in> set rest then Some (projr (futures ! i))
                                           else (results[index := Some v]) ! i)"
    using Cons.IH [of "results[index := Some v]"] by blast
  have "collect (index # rest) futures results = Inr res" using v r by simp
  moreover have "\<forall>i<length futures. res ! i =
      (if i \<in> set (index # rest) then Some (projr (futures ! i)) else results ! i)"
    using n v ix Cons.prems(2) by (auto simp: nth_list_update)
  ultimately show ?case using l by blast
qed

lemma collect_some_error:
  assumes "i \<in> set order" and "isl (futures ! i)"
  shows "\<exists>j\<in>set order. \<exists>e. futures ! j = Inl e \<and> collect order futures results = Inl e"
  using assms
proof (induction order arbitrary: results)
  case Nil
  then show ?case by simp
next
  case (Cons index rest)
  show ?case
  proof (cases "futures ! index")
    case (Inl e)
    then show ?thesis by auto
  next
    case (Inr v)
    then have "i \<in> set rest" using Cons.prems by auto
    from Cons.IH [OF this Cons.prems(2), of "results[index := Some v]"] Inr
    show ?thesis by auto
  qed
qed

lemma extend_all_Some: "extend_all (map Some bs) = concat bs"
  by (induction bs) (auto simp: extend_all_def)

text \<open>
  Claim C8. Whatever the order in which the workers of one poem batch complete (any
  arrangement \<open>order\<close> of the submission indices), the merged embedding list is the
  concatenation of the sub-batch results in submission order when every worker returned,
  and the call raises when one of them raised: the outcome does not depend on the order.
\<close>

theorem merge_in_submission_order:
  assumes "mset order = mset [0..<length (sub_batches all_sentences)]"
  shows "gather_embeddings svc order all_sentences =
           (if all_done (futures_of svc all_sentences)
            then Inr (concat (map projr (futures_of svc all_sentences)))
            else Inl IndexError)"
proof -
  let ?fs = "futures_of svc all_sentences"
  have len: "length ?fs = length (sub_batches all_sentences)"
    by (simp add: futures_of_def)
  have so: "set order = {0..<length ?fs}"
    using mset_eq_setD [OF assms] len by simp
  show ?thesis
  proof (cases "all_done ?fs")
    case True
    then have ok: "\<forall>i\<in>set order. i < length ?fs \<and> isl (?fs ! i) = False"
      using so by (auto simp: all_done_def list_all_length)
    from collect_all_ok [OF ok, of "replicate (length ?fs) None"] obtain res where
      r: "collect order ?fs (replicate (length ?fs) None) = Inr res"
      and l: "length res = length ?fs"
      and n: "\<forall>i<length ?fs. res ! i = Some (projr (?fs ! i))"
      using so by auto
    have "res = map Some (map projr ?fs)"
      using l n by (intro nth_equalityI) auto
    then have "extend_all res = concat (map projr ?fs)"
      by (simp only: extend_all_Some)
    then show ?thesis using True r by (simp add: gather_embeddings_def Let_def)
  next
    case False
    then obtain i where i: "i < length ?fs" and b: "isl (?fs ! i)"
      by (auto simp: all_done_def list_all_length)
    then have "i \<in> set order" using so by simp
    from collect_some_error [OF this b, of "replicate (length ?fs) None"] obtain j e where
      j: "j \<in> set order" and e: "?fs ! j = Inl e"
      and c: "collect order ?fs (replicate (length ?fs) None) = Inl e"
      by blast
    have "?fs ! j \<in> set ?fs" using j so by simp
    then have "e = IndexError" using e by (metis futures_of_error)
    then show ?thesis using False c by (simp add: gather_embeddings_def Let_def)
  qed
qed

lemma upt_12: "[0..<(12::nat)] = [0, 1, 2, 3, 4, 5, 6, 7, 8, 9, 10, 11]"
  by (simp add: upt_rec)

lemma sub_batches_twelve:
  "sub_batches twelve_sentences = [take 10 twelve_sentences, drop 10 twelve_sentences]"
  by (simp add: sub_batches_def embedding_api_batch_size_def twelve_sentences_def upt_12)

lemma futures_twelve:
  "futures_of length_service twelve_sentences
     = [Inr (map (\<lambda>i. Some [real i]) [1, 2, 3, 4, 5, 6, 7, 8, 9, 10]),
        Inr (map (\<lambda>i. Some [real i]) [11, 12])]"
  unfolding futures_of_def sub_batches_twelve
  by (simp add: twelve_sentences_def upt_12 get_batch_embeddings_def text_eval upt_3
        max_retries_def length_service_def Let_def)

text \<open>
  The theorem at twelve sentences, hence two sub-batches, the second completing first.
\<close>

theorem merge_in_submission_order_witness:
  "mset [1, 0] = mset [0..<length (sub_batches twelve_sentences)]
   \<and> gather_embeddings length_service [1, 0] twelve_sentences
       = Inr (map (\<lambda>i. Some [real i]) [1, 2, 3, 4, 5, 6, 7, 8, 9, 10, 11, 12])"
proof -
  have m: "mset [1, 0] = mset [0..<length (sub_batches twelve_sentences)]"
    by (simp add: sub_batches_twelve upt_rec)
  from merge_in_submission_order [OF m, of length_service] m
  show ?thesis by (simp add: futures_twelve all_done_def)
qed

section \<open>Properties of the document schema adapter\<close>

lemma returns_Inr [simp]: "returns (Inr x)"
  by (simp add: returns_def)

lemma returns_Inl [simp]: "\<not> returns (Inl e)"
  by (simp add: returns_def)

lemma returnsE: "returns m \<Longrightarrow> \<exists>x. m = Inr x"
  by (cases m) auto

lemma sbind_returns: "returns m \<Longrightarrow> (\<And>x. m = Inr x \<Longrightarrow> returns (f x)) \<Longrightarrow> returns (sbind m f)"
  by (cases m) (auto simp: sbind_def returns_def)

lemma sif_returns:
  "returns c \<Longrightarrow> (c = Inr True \<Longrightarrow> returns t) \<Longrightarrow> (c = Inr False \<Longrightarrow> returns e) \<Longrightarrow> returns (sif c t e)"
  unfolding sif_def by (rule sbind_returns) auto

lemma sconcat_map_returns: "(\<And>x. x \<in> set xs \<Longrightarrow> returns (f x)) \<Longrightarrow> returns (sconcat_map f xs)"
  by (induction xs) (auto intro!: sbind_returns)

lemma py_get_returns: "is_dict x \<Longrightarrow> returns (py_get x key dflt)"
  by (cases x) auto

lemma py_contains_returns: "is_dict x \<Longrightarrow> returns (py_contains key x)"
  by (cases x) auto

lemma py_getitem_returns:
  "is_dict x \<Longrightarrow> py_contains key x = Inr True \<Longrightarrow> returns (py_getitem x key)"
  by (cases x) (auto simp: map_of_eq_None_iff split: option.splits)

lemma has_list_returns: "is_dict x \<Longrightarrow> returns (has_list x key)"
  unfolding has_list_def
  by (rule sbind_returns) (auto intro!: sbind_returns py_contains_returns py_getitem_returns)

lemma has_list_True:
  "has_list x key = Inr True \<Longrightarrow> \<exists>xs. py_getitem x key = Inr (JArr xs)"
  unfolding has_list_def sbind_def
  by (auto split: sum.splits if_splits elim: is_list.elims)

lemma for_each_in_returns:
  "has_list x key = Inr True \<Longrightarrow> (\<And>item. returns (body item)) \<Longrightarrow> returns (for_each_in x key body)"
  using has_list_True [of x key]
  by (auto simp: for_each_in_def sbind_def intro!: sconcat_map_returns)

lemma build_poem_returns:
  "returns t \<Longrightarrow> returns a \<Longrightarrow> returns d \<Longrightarrow> returns p \<Longrightarrow> returns (build_poem t a d p)"
  by (cases t; cases a; cases d; cases p) (auto simp: build_poem_def sbind_def)

lemma get2_returns: "is_dict x \<Longrightarrow> is_dict y \<Longrightarrow> returns (get2 x k1 y k2 dflt)"
  unfolding get2_def by (auto intro!: sbind_returns py_get_returns)

lemma infer_dynasty_from_content_returns:
  "is_dict x \<Longrightarrow> returns (infer_dynasty_from_content E x)"
  unfolding infer_dynasty_from_content_def by (auto intro!: sbind_returns py_get_returns)

lemmas returns_intros = sbind_returns sif_returns build_poem_returns py_get_returns
  py_contains_returns has_list_returns get2_returns infer_dynasty_from_content_returns

lemma content_item_returns: "returns (content_item E fb item)"
  unfolding content_item_def
  by (auto intro!: returns_intros dest!: has_list_True)

lemma chapter_paragraph_returns:
  "is_dict data \<Longrightarrow> py_contains (ustr ''chapter'') data = Inr True \<Longrightarrow>
   returns (chapter_paragraph data fb paragraph)"
  unfolding chapter_paragraph_def
  by (auto intro!: returns_intros py_getitem_returns)

lemma chapters_para_returns:
  "is_dict data \<Longrightarrow> is_dict chapter \<Longrightarrow> returns (chapters_para data fb chapter para)"
  unfolding chapters_para_def
  by (auto intro!: returns_intros)

lemma chapters_item_returns: "is_dict data \<Longrightarrow> returns (chapters_item data fb chapter)"
  unfolding chapters_item_def
  by (auto intro!: returns_intros for_each_in_returns chapters_para_returns)

lemma sections_item_returns: "is_dict data \<Longrightarrow> returns (sections_item data fb section)"
  unfolding sections_item_def
  by (auto intro!: returns_intros)

lemma text_item_returns: "is_dict data \<Longrightarrow> returns (text_item data fb item)"
  unfolding text_item_def
  by (auto intro!: returns_intros)

lemma single_poem_shape_returns: "is_dict data \<Longrightarrow> returns (single_poem_shape data)"
  unfolding single_poem_shape_def
  by (auto intro!: returns_intros)

lemma recognised_shapes_returns: "is_dict data \<Longrightarrow> returns (recognised_shapes E data fb)"
  unfolding recognised_shapes_def
  by (intro sif_returns has_list_returns single_poem_shape_returns py_contains_returns
        for_each_in_returns content_item_returns chapter_paragraph_returns
        chapters_item_returns sections_item_returns text_item_returns) simp_all

lemma first_is_str_returns:
  "returns (if truthy v then sbind (py_first v) (\<lambda>x. Inr (is_str x)) else Inr False)"
  if "is_list v"
  using that by (cases v rule: py_first.cases) (auto simp: sbind_def)

lemma probe_fields_returns: "is_dict data \<Longrightarrow> returns (probe_fields data fb fs)"
proof (induction fs)
  case Nil
  then show ?case by simp
next
  case (Cons field rest)
  show ?case
  proof (cases "has_list data field = Inr True")
    case True
    then obtain xs where xs: "py_getitem data field = Inr (JArr xs)"
      using has_list_True by blast
    have "returns (sif (if truthy (JArr xs) then sbind (py_first (JArr xs)) (\<lambda>x. Inr (is_str x))
                         else Inr False)
                   (sbind (build_poem (py_get data (ustr ''title'') (JStr wu_ti))
                             (py_get data (ustr ''author'') fb)
                             (py_get data (ustr ''dynasty'') (JStr wei_zhi))
                             (Inr (JArr xs)))
                      (\<lambda>poem. Inr [poem]))
                   (Inr []))"
      using Cons.prems
      by (intro sif_returns first_is_str_returns sbind_returns build_poem_returns py_get_returns)
         simp_all
    then show ?thesis using True xs by (simp add: sif_def sbind_def)
  next
    case False
    have "returns (has_list data field)" using Cons.prems by (rule has_list_returns)
    then have "has_list data field = Inr False" using False by (cases "has_list data field") auto
    then show ?thesis using Cons by (simp add: sif_def sbind_def)
  qed
qed

lemma classics_paragraphs_returns:
  assumes "is_dict data"
  shows "returns (sif (has_list data (ustr ''paragraphs''))
          (sbind
             (build_poem
                (get2 data (ustr ''chapter'') data (ustr ''title'') (JStr jing_dian_pian_zhang))
                (Inr (JStr kong_zi))
                (Inr (JStr xian_qin))
                (py_getitem data (ustr ''paragraphs'')))
             (\<lambda>poem. Inr [poem]))
          (Inr []))"
proof (rule sif_returns)
  show "returns (has_list data (ustr ''paragraphs''))"
    using assms by (rule has_list_returns)
next
  assume "has_list data (ustr ''paragraphs'') = Inr True"
  then obtain xs where "py_getitem data (ustr ''paragraphs'') = Inr (JArr xs)"
    using has_list_True by blast
  then show "returns (sbind
             (build_poem
                (get2 data (ustr ''chapter'') data (ustr ''title'') (JStr jing_dian_pian_zhang))
                (Inr (JStr kong_zi))
                (Inr (JStr xian_qin))
                (py_getitem data (ustr ''paragraphs'')))
             (\<lambda>poem. Inr [poem]))"
    using assms by (auto intro!: sbind_returns build_poem_returns get2_returns)
qed simp

lemma classics_title_returns:
  assumes "is_dict data"
  shows "returns (sif (if is_dict data then py_contains (ustr ''title'') data else Inr False)
          (sbind
             (build_poem
                (py_getitem data (ustr ''title''))
                (py_get data (ustr ''author'') (JStr yi_ming))
                (py_get data (ustr ''dynasty'') (JStr xian_qin))
                (get2 data (ustr ''paragraphs'') data (ustr ''content'') (JArr [])))
             (\<lambda>poem. Inr [poem]))
          (Inr []))"
  using assms
  by (auto intro!: returns_intros py_getitem_returns)

lemma sniff_classics_returns: "is_dict data \<Longrightarrow> returns (sniff_classics E data)"
  unfolding sniff_classics_def
  using classics_paragraphs_returns [of data] classics_title_returns [of data]
  by simp

text \<open>
  Claim C4. For every parsed document, of any shape, \<open>_extract_poems_from_data\<close>
  returns a list of poem records and a fallback author and raises nothing: every
  subscript, \<open>get\<close>, \<open>in\<close> and iteration of the source is guarded by the test
  before it. A list yields its dictionaries and no fallback author; a value that is
  neither a list nor a dictionary yields no record.
\<close>

theorem extract_poems_never_raises:
  "(\<exists>poems fallback_author. extract_poems_from_data E data = Inr (poems, fallback_author))
   \<and> extract_poems_from_data E (JArr items) = Inr (filter is_dict items, JNull)
   \<and> extract_poems_from_data E JNull = Inr ([], JNull)
   \<and> extract_poems_from_data E (JBool b) = Inr ([], JNull)
   \<and> extract_poems_from_data E (JInt i) = Inr ([], JNull)
   \<and> extract_poems_from_data E (JFloat x) = Inr ([], JNull)
   \<and> extract_poems_from_data E (JStr s) = Inr ([], JNull)"
proof -
  have "returns (extract_poems_from_data E data)"
  proof (cases "is_list data")
    case True
    then show ?thesis
      by (cases data) (simp_all add: extract_poems_from_data_def sbind_def)
  next
    case False
    then show ?thesis
      unfolding extract_poems_from_data_def
      by (auto intro!: sbind_returns py_get_returns recognised_shapes_returns
            probe_fields_returns sniff_classics_returns)
  qed
  then have "\<exists>poems fallback_author. extract_poems_from_data E data = Inr (poems, fallback_author)"
    by (cases "extract_poems_from_data E data") auto
  then show ?thesis
    by (simp add: extract_poems_from_data_def sbind_def)
qed

section \<open>Properties of the poem normalisation\<close>

lemma foldl_pick: "foldl (\<lambda>best x. if P best x then x else best) c cs \<in> set (c # cs)"
proof (induction cs arbitrary: c)
  case Nil
  then show ?case by simp
next
  case (Cons x cs)
  show ?case using Cons.IH [of x] Cons.IH [of c] by auto
qed

lemma set_uniq: "set (uniq xs) = set xs"
  by (induction xs) auto

lemma most_common_in: "most_common xs = Some d \<Longrightarrow> d \<in> set xs"
proof -
  assume m: "most_common xs = Some d"
  then obtain c cs where u: "uniq xs = c # cs"
    by (cases "uniq xs") (auto simp: most_common_def)
  with m have "d = foldl (\<lambda>best x. if count_list xs best < count_list xs x then x else best) c cs"
    by (simp add: most_common_def)
  then have "d \<in> set (c # cs)"
    using foldl_pick [of "\<lambda>best x. count_list xs best < count_list xs x" c cs] by simp
  then have "d \<in> set (uniq xs)" using u by simp
  then show ?thesis by (simp only: set_uniq)
qed

lemma scan_poem_bound:
  "scan_poem E p = Inr pairs \<Longrightarrow> (a, d) \<in> set pairs \<Longrightarrow> length d \<le> 200"
  by (auto simp: scan_poem_def sbind_def split: if_splits sum.splits)

lemma scan_poems_bound: "(a, d) \<in> set (scan_poems E ps) \<Longrightarrow> length d \<le> 200"
proof (induction ps)
  case Nil
  then show ?case by simp
next
  case (Cons p ps)
  show ?case
  proof (cases "scan_poem E p")
    case (Inl e)
    then show ?thesis using Cons.prems by simp
  next
    case (Inr pairs)
    then have "(a, d) \<in> set pairs \<or> (a, d) \<in> set (scan_poems E ps)"
      using Cons.prems by simp
    then show ?thesis using scan_poem_bound [OF Inr] Cons.IH by blast
  qed
qed

lemma scan_file_bound: "(a, d) \<in> set (scan_file E f) \<Longrightarrow> length d \<le> 200"
  by (auto simp: scan_file_def split: option.splits sum.splits dest: scan_poems_bound)

lemma author_dynasty_map_bound:
  assumes "create_author_dynasty_map E files a = Some d"
  shows "length d \<le> 200"
proof -
  let ?pairs = "concat (map (scan_file E) files)"
  from assms have "d \<in> set (map snd (filter (\<lambda>p. fst p = a) ?pairs))"
    by (auto simp: create_author_dynasty_map_def Let_def dest: most_common_in)
  then have "\<exists>a'. (a', d) \<in> set ?pairs" by force
  then obtain a' where "(a', d) \<in> set ?pairs" by blast
  then obtain f where "(a', d) \<in> set (scan_file E f)" by auto
  then show ?thesis by (rule scan_file_bound)
qed

lemma first_match_in: "first_match test tab = Some v \<Longrightarrow> v \<in> snd ` set tab"
  by (induction tab) (auto split: if_splits)

lemmas literal_defs = wu_ti_def yi_ming_def kong_zi_def xian_qin_def wei_zhi_def
  wei_zhi_pian_zhang_def jing_dian_pian_zhang_def lun_yu_def da_xue_def zhong_yong_def
  meng_zi_def shi_jing_def chu_ci_def si_shu_wu_jing_def meng_xue_def gu_dai_def cao_cao_def
  nalan_xingde_def tang_dai_def song_dai_def yuan_dai_def ming_dai_def qing_dai_def
  wu_dai_shi_guo_def liang_jin_def nan_bei_chao_def sui_dai_def liang_han_def

lemma classical_texts_bound: "v \<in> snd ` set classical_texts \<Longrightarrow> length v \<le> 200"
  by (auto simp: classical_texts_def literal_defs)

lemma path_keyword_map_bound: "v \<in> snd ` set path_keyword_map \<Longrightarrow> length v \<le> 200"
  by (auto simp: path_keyword_map_def literal_defs)

lemma infer_dynasty_bound:
  assumes "\<And>a d. amap a = Some d \<Longrightarrow> length d \<le> 200"
  shows "length (infer_dynasty E amap author file_path) \<le> 200"
  unfolding infer_dynasty_def Let_def
  by (auto split: option.splits
        dest!: first_match_in classical_texts_bound path_keyword_map_bound assms
        simp: wei_zhi_def)

text \<open>
  Claim C10. Every record that \<open>process_poem_data\<close> accepts (returns, rather than
  \<open>None\<close>) has a title of at most 500 characters and an author and a dynasty of at most
  200 characters each, the author-to-dynasty table being the one the pre-scan builds. The
  title is the first 500 characters of the converted, stripped title: a longer value is
  cut, not rejected.
\<close>

theorem processed_fields_are_truncated:
  assumes "process_poem_data E (create_author_dynasty_map E files) poem_data file_path
             fallback_author = Some r"
  shows "length (p_title r) \<le> 500 \<and> length (p_author r) \<le> 200 \<and> length (p_dynasty r) \<le> 200
       \<and> (\<exists>t. py_get poem_data (ustr ''title'') (JStr wu_ti) = Inr t
              \<and> p_title r = take 500 (convert E (py_strip (py_str E t))))"
proof -
  have "length (infer_dynasty E (create_author_dynasty_map E files) a file_path) \<le> 200" for a
    by (rule infer_dynasty_bound) (rule author_dynasty_map_bound)
  then show ?thesis
    using assms
    by (auto simp: process_poem_data_def process_poem_body_def sbind_def Let_def
          split: sum.splits if_splits)
qed

lemma long_poem_processed:
  "process_poem_data plain_env (create_author_dynasty_map plain_env []) long_poem
     (ustr ''test.json'') JNull
   = Some \<lparr>p_title = replicate 500 97, p_author = replicate 200 98,
            p_dynasty = replicate 200 99, p_content = ustr ''abcd''\<rparr>"
  by (simp add: process_poem_data_def process_poem_body_def sbind_def Let_def long_poem_def
        plain_env_def py_str_def py_strip_def py_space_char_def ustr_def)

text \<open>
  The theorem at a record with a title of 600, an author of 300 and a dynasty of 250
  characters: it is accepted, with the fields cut to 500, 200 and 200.
\<close>

theorem processed_fields_are_truncated_witness:
  "process_poem_data plain_env (create_author_dynasty_map plain_env []) long_poem
     (ustr ''test.json'') JNull
   = Some \<lparr>p_title = replicate 500 97, p_author = replicate 200 98,
            p_dynasty = replicate 200 99, p_content = ustr ''abcd''\<rparr>
   \<and> length (replicate 500 (97::nat)) \<le> 500"
  using processed_fields_are_truncated [OF long_poem_processed] long_poem_processed by simp

text \<open>
  Claim C9, amended. For every accepted record whose \<open>paragraphs\<close> are a list of
  strings, the \<open>content\<close> of the processed record, which is what is stored as the
  poem's \<open>full_content\<close>, is the script-converted concatenation of the paragraph
  lines; nothing strips or removes whitespace from it.
\<close>

theorem content_is_converted_concatenation:
  assumes "process_poem_data E amap poem_data file_path fallback_author = Some r"
    and "py_get poem_data (ustr ''paragraphs'') (JArr []) = Inr (JArr (map JStr paragraph_lines))"
  shows "p_content r = convert E (concat paragraph_lines)"
proof -
  have "py_join (JArr (map JStr paragraph_lines)) = Inr (concat paragraph_lines)"
    by (simp add: list_all_iff comp_def)
  then show ?thesis
    using assms
    by (auto simp: process_poem_data_def process_poem_body_def sbind_def Let_def
          split: sum.splits if_splits)
qed

lemma spaced_poem_processed:
  "process_poem_data plain_env (\<lambda>a. None) spaced_poem (ustr ''test.json'') JNull
   = Some \<lparr>p_title = ustr ''T'', p_author = ustr ''A'', p_dynasty = ustr ''D'',
            p_content = ustr ''ab cd ef''\<rparr>"
  by (simp add: process_poem_data_def process_poem_body_def sbind_def Let_def spaced_poem_def
        plain_env_def py_str_def py_strip_def py_space_char_def ustr_def)

text \<open>The theorem at a record whose paragraphs contain spaces.\<close>

theorem content_is_converted_concatenation_witness:
  "process_poem_data plain_env (\<lambda>a. None) spaced_poem (ustr ''test.json'') JNull
   = Some \<lparr>p_title = ustr ''T'', p_author = ustr ''A'', p_dynasty = ustr ''D'',
            p_content = ustr ''ab cd ef''\<rparr>
   \<and> py_get spaced_poem (ustr ''paragraphs'') (JArr [])
       = Inr (JArr (map JStr [ustr ''ab cd'', ustr '' ef'']))
   \<and> ustr ''ab cd ef'' = convert plain_env (concat [ustr ''ab cd'', ustr '' ef''])"
proof -
  have g: "py_get spaced_poem (ustr ''paragraphs'') (JArr [])
             = Inr (JArr (map JStr [ustr ''ab cd'', ustr '' ef'']))"
    by (simp add: spaced_poem_def ustr_def)
  from content_is_converted_concatenation [OF spaced_poem_processed g] g spaced_poem_processed
  show ?thesis by simp
qed

text \<open>
  Claim C9 as stated fails: the spaces of the paragraphs \<open>"ab cd"\<close> and \<open>" ef"\<close>
  are all in the content.
\<close>

theorem whitespace_survives_in_content:
  "map_option p_content
     (process_poem_data plain_env (\<lambda>a. None) spaced_poem (ustr ''test.json'') JNull)
   = Some (ustr ''ab cd ef'')
   \<and> list_ex py_space_char (ustr ''ab cd ef'')"
  by (simp add: spaced_poem_processed) (simp add: ustr_def py_space_char_def)

section \<open>Properties of the loader and of the import run\<close>

lemma scenario_extract:
  "extract_poems_from_data E scenario_doc = Inr ([scenario_doc], JStr (ustr ''A''))"
  by (simp add: extract_poems_from_data_def scenario_doc_def recognised_shapes_def sif_def
        sbind_def has_list_def ustr_def)

lemma scenario_process:
  assumes "fixes_scenario E"
  shows "process_poem_data E amap scenario_doc file_path (JStr (ustr ''A'')) = Some scenario_poem"
proof -
  have s: "py_strip (ustr ''T'') = ustr ''T''" "py_strip (ustr ''A'') = ustr ''A''"
    "py_strip (ustr ''D'') = ustr ''D''"
    by (simp_all add: py_strip_def ustr_def py_space_char_def)
  have j: "py_join (JArr [JStr yi_ju, JStr er_ju]) = Inr (yi_ju @ er_ju)"
    by simp
  have g: "py_get scenario_doc (ustr ''title'') d1 = Inr (JStr (ustr ''T''))"
    "py_get scenario_doc (ustr ''author'') d2 = Inr (JStr (ustr ''A''))"
    "py_get scenario_doc (ustr ''dynasty'') d3 = Inr (JStr (ustr ''D''))"
    "py_get scenario_doc (ustr ''paragraphs'') d4 = Inr (JArr [JStr yi_ju, JStr er_ju])"
    for d1 d2 d3 d4
    by (simp_all add: scenario_doc_def ustr_def)
  have ne: "ustr ''A'' \<noteq> []" "ustr ''D'' \<noteq> []" "yi_ju \<noteq> []"
    by (simp_all add: ustr_def yi_ju_def)
  have t: "take 500 (ustr ''T'') = ustr ''T''" "take 200 (ustr ''A'') = ustr ''A''"
    "take 200 (ustr ''D'') = ustr ''D''"
    by (simp_all add: ustr_def)
  show ?thesis
    using assms
    by (simp add: process_poem_data_def process_poem_body_def sbind_def Let_def g py_str_def s j
          fixes_scenario_def ne t scenario_poem_def)
qed

lemma scenario_sentences: "split_sentences E (yi_ju @ er_ju) = []"
  by (simp add: split_sentences_def yi_ju_def er_ju_def match_noise_def match_footnote_def
        match_delimited_def py_space_char_def sentence_end_def py_strip_def Let_def)

lemma scenario_batch:
  "process_and_insert_batch E svc sched None [scenario_poem]
     \<lparr>committed = empty_db, working = empty_db\<rparr>
   = (None, \<lparr>committed = scenario_db, working = scenario_db\<rparr>)"
  by (simp add: process_and_insert_batch_def batch_body_def sbind_def at_step_def Let_def
        scenario_poem_def scenario_sentences empty_db_def next_id_def dynasty_map_def
        author_map_def List.map_filter_simps commit_def scenario_db_def)

lemma scenario_doc_is_dict: "is_dict scenario_doc"
  by (simp add: scenario_doc_def)

lemma scenario_run:
  assumes "fixes_scenario E"
  shows "run_import E svc sched no_fault scenario_corpus fresh_world
         = \<lparr>conn = \<lparr>committed = scenario_db, working = scenario_db\<rparr>,
            processed_log = [ustr ''corpus/one.json''], batch_calls = 1\<rparr>"
  by (simp add: run_import_def scenario_corpus_def load_processed_files_def fresh_world_def
        process_file_def scenario_extract scenario_process [OF assms] db_batch_size_def
        insert_call_def no_fault_def scenario_batch mark_file_as_processed_def rollback_def
        Let_def scenario_doc_is_dict)

text \<open>
  Claim C3, amended. With a converter that leaves the scenario's texts unchanged,
  ingesting the one-file corpus gives one dynasty row \<open>D\<close>, one author row
  \<open>(A, D)\<close>, one poem row whose \<open>full_content\<close> is the two paragraphs joined, and
  no line row, whatever the embedding service answers and in whatever order workers
  complete: both fragments have two characters, fewer than the four a sentence needs, so
  no sentence is sent to the service. The file is recorded in the checkpoint log.
\<close>

theorem scenario_rows:
  assumes "fixes_scenario E"
  shows "run_import E svc sched no_fault scenario_corpus fresh_world
         = \<lparr>conn = \<lparr>committed = scenario_db, working = scenario_db\<rparr>,
            processed_log = [ustr ''corpus/one.json''], batch_calls = 1\<rparr>"
  using assms by (rule scenario_run)

lemma plain_env_fixes: "fixes_scenario plain_env"
  by (simp add: fixes_scenario_def plain_env_def)

text \<open>The theorem with the plain converter and a service that always fails.\<close>

theorem scenario_rows_witness:
  "fixes_scenario plain_env
   \<and> run_import plain_env (always_status 500 :: real service) in_order no_fault scenario_corpus
       fresh_world
     = \<lparr>conn = \<lparr>committed = scenario_db, working = scenario_db\<rparr>,
        processed_log = [ustr ''corpus/one.json''], batch_calls = 1\<rparr>"
  using scenario_rows [OF plain_env_fixes] plain_env_fixes by simp

text \<open>
  Claim C3 as stated fails: with a service that answers every request, the scenario
  stores no line row, not two.
\<close>

theorem scenario_has_no_lines:
  "lines (committed (conn (run_import plain_env length_service in_order no_fault
                             scenario_corpus fresh_world))) = []"
  by (simp add: scenario_run [OF plain_env_fixes] scenario_db_def)

lemma one_poem_extract:
  "extract_poems_from_data E one_poem_doc
     = Inr ([JObj [(ustr ''title'', JStr (ustr ''T'')),
                   (ustr ''author'', JStr (ustr ''A'')),
                   (ustr ''dynasty'', JStr (ustr ''D'')),
                   (ustr ''paragraphs'', JArr [JStr (ustr ''abcdef'')])]], JNull)"
  by (simp add: extract_poems_from_data_def one_poem_doc_def sbind_def)

lemma one_poem_process:
  "process_poem_data plain_env amap
     (JObj [(ustr ''title'', JStr (ustr ''T'')),
            (ustr ''author'', JStr (ustr ''A'')),
            (ustr ''dynasty'', JStr (ustr ''D'')),
            (ustr ''paragraphs'', JArr [JStr (ustr ''abcdef'')])]) file_path JNull
   = Some one_poem"
  by (simp add: process_poem_data_def process_poem_body_def sbind_def Let_def py_str_def
        py_strip_def py_space_char_def ustr_def plain_env_def one_poem_def)

text \<open>
  Unless opening the cursor fails, the loader returns normally, whatever fails inside
  the \<open>try\<close> block.
\<close>

lemma batch_never_raises:
  "fault \<noteq> Some Cursor \<Longrightarrow>
   fst (process_and_insert_batch E svc sched fault poem_batch c) = None"
  by (simp add: process_and_insert_batch_def split: sum.splits)

text \<open>
  A call leaves the connection either rolled back to the committed state or with the
  whole batch committed: no part of a failed batch persists.
\<close>

lemma batch_commits_or_rolls_back:
  "poem_batch \<noteq> [] \<Longrightarrow> fault \<noteq> Some Cursor \<Longrightarrow>
   snd (process_and_insert_batch E svc sched fault poem_batch c) = rollback c
   \<or> (\<exists>d. batch_body E svc sched fault poem_batch (working c) = Inr d
          \<and> fault \<noteq> Some Commit
          \<and> snd (process_and_insert_batch E svc sched fault poem_batch c)
              = \<lparr>committed = d, working = d\<rparr>)"
  by (cases "batch_body E svc sched fault poem_batch (working c)")
     (auto simp: process_and_insert_batch_def sbind_def at_step_def commit_def)

text \<open>
  Claim C2 at a failing input: the insert into \<open>poems\<close> raises. The batch is rolled
  back, and the call returns normally (\<open>None\<close>: no exception reaches the caller).
\<close>

theorem failed_batch_is_swallowed:
  "process_and_insert_batch plain_env length_service in_order (Some PoemInsert) [one_poem]
     \<lparr>committed = empty_db, working = empty_db\<rparr>
   = (None, \<lparr>committed = empty_db, working = empty_db\<rparr>)"
  by (simp add: process_and_insert_batch_def batch_body_def sbind_def at_step_def Let_def
        rollback_def)

lemma failed_run:
  "run_import plain_env length_service in_order poem_insert_fails one_poem_corpus fresh_world
   = \<lparr>conn = \<lparr>committed = empty_db, working = empty_db\<rparr>,
      processed_log = [ustr ''corpus/poem.json''], batch_calls = 1\<rparr>"
  by (simp add: run_import_def one_poem_corpus_def load_processed_files_def fresh_world_def
        process_file_def one_poem_extract one_poem_process db_batch_size_def
        insert_call_def poem_insert_fails_def process_and_insert_batch_def batch_body_def sbind_def
        at_step_def one_poem_def mark_file_as_processed_def rollback_def Let_def)

text \<open>
  Claim C1 at a failing input: the only batch of the file fails and is rolled back, and
  the file is written to the checkpoint log all the same; a second run, without any
  fault, skips the file and stores nothing.
\<close>

theorem failed_file_is_checkpointed:
  "run_import plain_env length_service in_order poem_insert_fails one_poem_corpus fresh_world
   = \<lparr>conn = \<lparr>committed = empty_db, working = empty_db\<rparr>,
      processed_log = [ustr ''corpus/poem.json''], batch_calls = 1\<rparr>
   \<and> run_import plain_env length_service in_order no_fault one_poem_corpus
       \<lparr>conn = \<lparr>committed = empty_db, working = empty_db\<rparr>,
        processed_log = [ustr ''corpus/poem.json''], batch_calls = 1\<rparr>
     = \<lparr>conn = \<lparr>committed = empty_db, working = empty_db\<rparr>,
        processed_log = [ustr ''corpus/poem.json''], batch_calls = 1\<rparr>"
  by (simp add: failed_run)
     (simp add: run_import_def one_poem_corpus_def load_processed_files_def py_strip_def
        py_space_char_def ustr_def rollback_def)

lemma one_poem_sentences: "split_sentences plain_env (ustr ''abcdef'') = [ustr ''abcdef'']"
  by (simp add: split_sentences_def match_noise_def match_footnote_def
        match_delimited_def py_space_char_def sentence_end_def py_strip_def Let_def ustr_def
        plain_env_def)

lemma one_poem_embeddings:
  "gather_embeddings length_service (in_order (length (sub_batches [ustr ''abcdef''])))
     [ustr ''abcdef''] = Inr [Some [6]]"
  by (simp add: gather_embeddings_def futures_of_def sub_batches_def
        embedding_api_batch_size_def in_order_def get_batch_embeddings_def valid_texts_def
        valid_indices_def nonblank_def py_isspace_def py_space_char_def ustr_def max_retries_def
        upt_3 length_service_def extend_all_def Let_def)

text \<open>The same corpus without a fault: the poem and its sentence are stored.\<close>

lemma successful_run:
  "run_import plain_env length_service in_order no_fault one_poem_corpus fresh_world
   = \<lparr>conn = \<lparr>committed = one_poem_db, working = one_poem_db\<rparr>,
      processed_log = [ustr ''corpus/poem.json''], batch_calls = 1\<rparr>"
  by (simp add: run_import_def one_poem_corpus_def load_processed_files_def fresh_world_def
        process_file_def one_poem_extract one_poem_process db_batch_size_def
        insert_call_def no_fault_def process_and_insert_batch_def batch_body_def sbind_def
        at_step_def one_poem_def one_poem_sentences one_poem_embeddings lines_to_insert_def
        List.map_filter_simps empty_db_def next_id_def dynasty_map_def author_map_def
        commit_def mark_file_as_processed_def rollback_def one_poem_db_def Let_def)

section \<open>Properties of the semantic search\<close>

lemma exact_distance: "min_distance (mean_vector [[1, 0]]) exact_store 1 = Some 0"
  by (simp add: min_distance_def mean_vector_def exact_store_def List.map_filter_simps
        cosine_distance_def dot_def upt_rec)

text \<open>
  Claim C5 at a failing input: the query is the embedding of the poem's only line, so the
  minimum cosine distance is 0, and the presented score is 0, not \<open>1 - 0\<close>: the
  conditional expression takes the distance \<open>0.0\<close> for a missing one.
\<close>

theorem exact_match_scores_zero:
  "min_distance (mean_vector [[1, 0]]) exact_store 1 = Some 0
   \<and> semantic_search [[1, 0]] 10 0 exact_store
       = (1, [\<lparr>r_id = 1, r_title = ustr ''T'', r_author = ustr ''A'', r_dynasty = ustr ''D'',
                r_content = ustr ''abcdef'', r_score = 0\<rparr>])"
  using exact_distance
  by (simp add: semantic_search_def vector_search_def List.map_filter_simps exact_store_def
        to_response_def similarity_score_def py_round4_def round_half_even_def Let_def)

text \<open>The rows are ordered by ascending minimum distance.\<close>

lemma vector_search_sorted: "sorted (map snd (vector_search q limit offset st))"
proof -
  have "sorted (map snd (sort_key snd xs))" for xs :: "('a \<times> real) list"
    by (rule sorted_sort_key)
  then show ?thesis
    unfolding vector_search_def
    by (simp add: sorted_wrt_take sorted_wrt_drop take_map [symmetric] drop_map [symmetric]
          del: take_map drop_map)
qed

text \<open>For a distance other than 0 the score is \<open>1 - distance\<close>, rounded to four decimals.\<close>

lemma nonzero_distance_score:
  "d \<noteq> 0 \<Longrightarrow> r_score (to_response (p, d)) = py_round4 (1 - d)"
  by (cases p) (simp add: to_response_def similarity_score_def)

end
